theory Spec2Isabelle
  imports Complex_Main "HOL-Library.Char_ord" "HOL-Library.List_Lexorder" "HOL-Library.Multiset"
begin

section \<open>Common vocabulary: errors, Python strings\<close>

text \<open>
  Every exception the modules can raise is a value. \<open>F5ModuleError\<close> is the
  collection's own error, \<open>PyException\<close> a bare \<^verbatim>\<open>Exception\<close>, the others
  are Python's built-in ones.
\<close>

datatype error =
    F5ModuleError string
  | PyException string
  | ValueError string
  | KeyError string
  | IndexError
  | AttributeError

definition dquote :: char where "dquote = CHR 0x22"
definition squote :: char where "squote = CHR 0x27"
definition backslash :: char where "backslash = CHR 0x5C"
definition newline :: char where "newline = CHR 0x0A"

text \<open>\<^verbatim>\<open>str.isspace\<close> on the characters below U+0100, which is what \<^verbatim>\<open>str.strip()\<close> removes.\<close>

definition py_isspace :: "char \<Rightarrow> bool" where
  "py_isspace c \<longleftrightarrow> c \<in> set [CHR 0x09, CHR 0x0A, CHR 0x0B, CHR 0x0C, CHR 0x0D,
     CHR 0x1C, CHR 0x1D, CHR 0x1E, CHR 0x1F, CHR 0x20, CHR 0x85, CHR 0xA0]"

definition py_strip :: "string \<Rightarrow> string" where
  "py_strip s = rev (dropWhile py_isspace (rev (dropWhile py_isspace s)))"

text \<open>\<^verbatim>\<open>s.startswith(p)\<close> and \<^verbatim>\<open>sub in s\<close>.\<close>

definition startswith :: "string \<Rightarrow> string \<Rightarrow> bool" where
  "startswith s p \<longleftrightarrow> take (length p) s = p"

primrec contains :: "string \<Rightarrow> string \<Rightarrow> bool" where
  "contains sub [] = (sub = [])"
| "contains sub (c # cs) = (startswith (c # cs) sub \<or> contains sub cs)"

text \<open>\<^verbatim>\<open>s.split(sep, 1)\<close> for a one-character separator: one or two pieces.\<close>

definition py_split1 :: "char \<Rightarrow> string \<Rightarrow> string list" where
  "py_split1 sep s =
     (if sep \<in> set s
      then [takeWhile (\<lambda>c. c \<noteq> sep) s, drop 1 (dropWhile (\<lambda>c. c \<noteq> sep) s)]
      else [s])"

text \<open>\<^verbatim>\<open>s.split(sep)\<close> for a one-character separator: every occurrence splits.\<close>

primrec split_acc :: "char \<Rightarrow> string \<Rightarrow> string \<Rightarrow> string list" where
  "split_acc sep acc [] = [acc]"
| "split_acc sep acc (c # cs) =
     (if c = sep then acc # split_acc sep [] cs else split_acc sep (acc @ [c]) cs)"

definition py_split :: "char \<Rightarrow> string \<Rightarrow> string list" where
  "py_split sep s = split_acc sep [] s"

text \<open>\<^verbatim>\<open>str.upper()\<close> on ASCII letters (the policy names are ASCII).\<close>

definition upper_char :: "char \<Rightarrow> char" where
  "upper_char c =
     (if CHR ''a'' \<le> c \<and> c \<le> CHR ''z'' then char_of (of_char c - (32::nat)) else c)"

definition py_upper :: "string \<Rightarrow> string" where
  "py_upper s = map upper_char s"

text \<open>
  The values a parameter can hold, and an HTTP answer of the device: its status code and
  its body as it would be rendered in an error message. \<open>ok_code\<close> is the test
  \<^verbatim>\<open>response['code'] in [200, 201, 202]\<close>.
\<close>

datatype pyval = VStr string | VInt int | VBool bool | VList "string list"

record response =
  code :: int
  contents :: string

definition ok_code :: "int \<Rightarrow> bool" where
  "ok_code c \<longleftrightarrow> c \<in> set [200, 201, 202]"

text \<open>Running a fallible step over a list, stopping at the first exception.\<close>

primrec mapM :: "('a \<Rightarrow> error + 'b) \<Rightarrow> 'a list \<Rightarrow> error + 'b list" where
  "mapM f [] = Inr []"
| "mapM f (x # xs) =
     (case f x of
        Inl e \<Rightarrow> Inl e
      | Inr y \<Rightarrow> (case mapM f xs of Inl e \<Rightarrow> Inl e | Inr ys \<Rightarrow> Inr (y # ys)))"


section \<open>bigip_command\<close>

subsection \<open>NoChangeReporter\<close>

text \<open>
  Both entries of \<^verbatim>\<open>stdout_re\<close> have the shape \<^verbatim>\<open>PRE.*SUF\<close> with literal \<open>PRE\<close> and
  \<open>SUF\<close>. \<^verbatim>\<open>regex.search\<close> succeeds iff at some position the text starts with
  \<open>PRE\<close> and \<open>SUF\<close> occurs later before the next line break (\<^verbatim>\<open>.\<close> does not match
  a newline, and \<open>SUF\<close> contains none).
\<close>

definition match_here :: "string \<Rightarrow> string \<Rightarrow> string \<Rightarrow> bool" where
  "match_here pre suf s \<longleftrightarrow>
     startswith s pre \<and> contains suf (takeWhile (\<lambda>c. c \<noteq> newline) (drop (length pre) s))"

primrec re_search :: "string \<Rightarrow> string \<Rightarrow> string \<Rightarrow> bool" where
  "re_search pre suf [] = match_here pre suf []"
| "re_search pre suf (c # cs) = (match_here pre suf (c # cs) \<or> re_search pre suf cs)"

definition stdout_re :: "(string \<times> string) list" where
  "stdout_re = [(''The requested'', ''already exists''),
                (''Data Input Error: shared'', ''already exists'')]"

definition find_no_change :: "string list \<Rightarrow> bool" where
  "find_no_change responses \<longleftrightarrow>
     (\<exists>response \<in> set responses. \<exists>(pre, suf) \<in> set stdout_re. re_search pre suf response)"

subsection \<open>BaseManager\<close>

definition changed_command_prefixes :: "string list" where
  "changed_command_prefixes = [''modify'', ''create'', ''delete'']"

text \<open>\<^verbatim>\<open>x.startswith(tuple)\<close>: one of the prefixes fits.\<close>

definition startswith_any :: "string \<Rightarrow> string list \<Rightarrow> bool" where
  "startswith_any x ps \<longleftrightarrow> (\<exists>p \<in> set ps. startswith x p)"

text \<open>
  \<^verbatim>\<open>any(x for x in cmds if x.startswith(prefixes))\<close> asks for a command with a
  change prefix that is itself truthy, that is non-empty.
\<close>

definition determine_change :: "string list \<Rightarrow> string list \<Rightarrow> bool" where
  "determine_change responses normalized_commands =
     (if find_no_change responses then False
      else if (\<exists>x \<in> set (filter (\<lambda>x. startswith_any x changed_command_prefixes)
                              normalized_commands). x \<noteq> [])
      then True
      else False)"

definition normalize_command :: "string \<Rightarrow> string" where
  "normalize_command command =
     (let command = py_strip command
      in if take 5 command = ''tmsh '' then py_strip (drop 4 command) else command)"

text \<open>\<^verbatim>\<open>if not raw_commands: return None\<close> covers both \<^verbatim>\<open>None\<close> and the empty list.\<close>

definition normalize_commands :: "string list option \<Rightarrow> string list option" where
  "normalize_commands raw_commands =
     (case raw_commands of
        None \<Rightarrow> None
      | Some [] \<Rightarrow> None
      | Some cs \<Rightarrow> Some (map normalize_command cs))"

subsection \<open>Parameters\<close>

text \<open>The \<^verbatim>\<open>chdir\<close> property over the raw value \<^verbatim>\<open>_values['chdir']\<close>.\<close>

definition chdir :: "string option \<Rightarrow> string option" where
  "chdir v =
     (case v of
        None \<Rightarrow> None
      | Some d \<Rightarrow> if startswith d ''/'' then Some d else Some (''/'' @ d))"

text \<open>
  \<^verbatim>\<open>cmd_has_pipe\<close> counts the tokens of \<^verbatim>\<open>shlex.shlex(cmd, posix=True)\<close> with
  \<^verbatim>\<open>whitespace = '|'\<close> and \<^verbatim>\<open>whitespace_split = True\<close>. The tokenizer is Python's
  standard library; \<open>read_tokens\<close> follows its \<^verbatim>\<open>read_token\<close> state machine for exactly
  this configuration: the only separator is the pipe, \<^verbatim>\<open>#\<close> starts a comment that runs
  through the end of the line, the quotes are \<^verbatim>\<open>'\<close> and \<^verbatim>\<open>"\<close>, the escape is the
  backslash (inside double quotes too). With \<^verbatim>\<open>whitespace_split\<close> every other
  character is word material, so the word-character test of the library does not show.
  The arguments are the lexer state, the \<^verbatim>\<open>quoted\<close> flag, the token read so far and
  the rest of the input.
\<close>

datatype lex_state = LSpace | LWord | LQuote char | LEscapeWord | LEscapeQuote char

definition readline :: "string \<Rightarrow> string" where
  "readline cs = drop 1 (dropWhile (\<lambda>c. c \<noteq> newline) cs)"

definition emit :: "string \<Rightarrow> error + string list \<Rightarrow> error + string list" where
  "emit tok r = (case r of Inl e \<Rightarrow> Inl e | Inr ts \<Rightarrow> Inr (tok # ts))"

lemma length_readline [simp]: "length (readline cs) \<le> length cs"
  by (simp add: readline_def) (metis diff_le_self le_trans length_dropWhile_le)

function read_tokens :: "lex_state \<Rightarrow> bool \<Rightarrow> string \<Rightarrow> string \<Rightarrow> error + string list" where
  "read_tokens st quoted tok [] =
     (case st of
        LQuote q \<Rightarrow> Inl (ValueError ''No closing quotation'')
      | LEscapeWord \<Rightarrow> Inl (ValueError ''No escaped character'')
      | LEscapeQuote q \<Rightarrow> Inl (ValueError ''No escaped character'')
      | _ \<Rightarrow> Inr (if tok \<noteq> [] \<or> quoted then [tok] else []))"
| "read_tokens LSpace quoted tok (c # cs) =
     (if c = CHR ''|'' then
        (if tok \<noteq> [] \<or> quoted then emit tok (read_tokens LSpace False [] cs)
         else read_tokens LSpace quoted tok cs)
      else if c = CHR ''#'' then read_tokens LSpace quoted tok (readline cs)
      else if c = backslash then read_tokens LEscapeWord quoted tok cs
      else if c = squote \<or> c = dquote then read_tokens (LQuote c) quoted tok cs
      else read_tokens LWord quoted [c] cs)"
| "read_tokens (LQuote q) quoted tok (c # cs) =
     (if c = q then read_tokens LWord True tok cs
      else if c = backslash \<and> q = dquote then read_tokens (LEscapeQuote q) True tok cs
      else read_tokens (LQuote q) True (tok @ [c]) cs)"
| "read_tokens LEscapeWord quoted tok (c # cs) = read_tokens LWord quoted (tok @ [c]) cs"
| "read_tokens (LEscapeQuote q) quoted tok (c # cs) =
     read_tokens (LQuote q) quoted
       ((if c \<noteq> backslash \<and> c \<noteq> q then tok @ [backslash] else tok) @ [c]) cs"
| "read_tokens LWord quoted tok (c # cs) =
     (if c = CHR ''|'' then
        (if tok \<noteq> [] \<or> quoted then emit tok (read_tokens LSpace False [] cs)
         else read_tokens LSpace quoted tok cs)
      else if c = CHR ''#'' then
        (if tok \<noteq> [] \<or> quoted then emit tok (read_tokens LSpace False [] (readline cs))
         else read_tokens LSpace quoted tok (readline cs))
      else if c = squote \<or> c = dquote then read_tokens (LQuote c) quoted tok cs
      else if c = backslash then read_tokens LEscapeWord quoted tok cs
      else read_tokens LWord quoted (tok @ [c]) cs)"
  by pat_completeness auto
termination
  by (relation "measure (\<lambda>(st, quoted, tok, cs). length cs)")
     (auto simp: less_Suc_eq_le)

definition shlex_tokens :: "string \<Rightarrow> error + string list" where
  "shlex_tokens cmd = read_tokens LSpace False [] cmd"

definition cmd_has_pipe :: "string \<Rightarrow> error + bool" where
  "cmd_has_pipe cmd =
     (case shlex_tokens cmd of Inl e \<Rightarrow> Inl e | Inr ts \<Rightarrow> Inr (length ts > 1))"

text \<open>The dictionary \<^verbatim>\<open>dict(command='', pipeline='')\<close> each command is turned into.\<close>

record cmd =
  command :: string
  pipeline :: string

text \<open>
  \<^verbatim>\<open>tmp['command'] = pipeline[0]\<close>, then \<^verbatim>\<open>tmp['pipeline'] = pipeline[1]\<close> with the
  \<^verbatim>\<open>IndexError\<close> swallowed.
\<close>

definition fill_cmd :: "string list \<Rightarrow> error + cmd" where
  "fill_cmd pl =
     (case pl of
        [] \<Rightarrow> Inl IndexError
      | [a] \<Rightarrow> Inr \<lparr>command = a, pipeline = []\<rparr>
      | a # b # _ \<Rightarrow> Inr \<lparr>command = a, pipeline = b\<rparr>)"

definition convert_command_cli :: "string \<Rightarrow> error + cmd" where
  "convert_command_cli c =
     (case cmd_has_pipe c of
        Inl e \<Rightarrow> Inl e
      | Inr has_pipe \<Rightarrow> fill_cmd (if has_pipe then py_split1 (CHR ''|'') c else [c]))"

definition convert_commands_cli :: "string list \<Rightarrow> error + cmd list" where
  "convert_commands_cli commands = mapM convert_command_cli commands"

text \<open>\<^verbatim>\<open>command.replace("'", "\\'")\<close>: a backslash before every single quote.\<close>

definition escape_squotes :: "string \<Rightarrow> string" where
  "escape_squotes s = concat (map (\<lambda>c. if c = squote then [backslash, squote] else [c]) s)"

definition convert_command :: "string \<Rightarrow> error + cmd" where
  "convert_command c = convert_command_cli (escape_squotes c)"

definition convert_commands :: "string list \<Rightarrow> error + cmd list" where
  "convert_commands commands = mapM convert_command commands"

text \<open>
  \<^verbatim>\<open>re.sub(r'([$"])', repl, s)\<close> where the template \<open>repl\<close> stands for \<open>n\<close>
  backslashes followed by the matched character.
\<close>

definition re_sub_escape :: "nat \<Rightarrow> string \<Rightarrow> string" where
  "re_sub_escape n s =
     concat (map (\<lambda>c. if c = CHR ''$'' \<or> c = dquote then replicate n backslash @ [c] else [c]) s)"

definition merge_command_dict :: "cmd \<Rightarrow> cmd" where
  "merge_command_dict c =
     (if pipeline c \<noteq> [] then
        (let p = re_sub_escape 1 (pipeline c)
         in c\<lparr>pipeline := p, command := py_strip (command c @ '' | '' @ p)\<rparr>)
      else c)"

definition merge_command_dict_cli :: "cmd \<Rightarrow> cmd" where
  "merge_command_dict_cli c =
     (if pipeline c \<noteq> [] then c\<lparr>command := py_strip (command c @ '' | '' @ pipeline c)\<rparr>
      else c)"

definition unbalanced :: error where
  "unbalanced = PyException ''Double quotes are unbalanced''"

definition addon_tmsh :: "cmd \<Rightarrow> error + cmd" where
  "addon_tmsh c =
     (if count_list (command c) dquote mod 2 \<noteq> 0 then Inl unbalanced
      else Inr (c\<lparr>command := ''tmsh -c '' @ [backslash, dquote]
                               @ re_sub_escape 3 (command c) @ [backslash, dquote]\<rparr>))"

definition addon_tmsh_cli :: "cmd \<Rightarrow> error + cmd" where
  "addon_tmsh_cli c =
     (if count_list (command c) dquote mod 2 \<noteq> 0 then Inl unbalanced
      else Inr (c\<lparr>command := ''tmsh -c '' @ [dquote] @ command c @ [dquote]\<rparr>))"

definition addon_chdir :: "string \<Rightarrow> cmd \<Rightarrow> cmd" where
  "addon_chdir dir c = c\<lparr>command := ''cd '' @ dir @ ''; '' @ command c\<rparr>"

text \<open>\<^verbatim>\<open>if self.chdir:\<close> holds for a non-empty string; the property never returns an empty one.\<close>

definition apply_chdir :: "string option \<Rightarrow> cmd list \<Rightarrow> cmd list" where
  "apply_chdir raw_chdir commands =
     (case chdir raw_chdir of
        None \<Rightarrow> commands
      | Some dir \<Rightarrow> if dir \<noteq> [] then map (addon_chdir dir) commands else commands)"

definition rest_commands :: "string option \<Rightarrow> string list \<Rightarrow> error + string list" where
  "rest_commands raw_chdir normalized_commands =
     (case convert_commands normalized_commands of
        Inl e \<Rightarrow> Inl e
      | Inr commands \<Rightarrow>
          (case mapM addon_tmsh (apply_chdir raw_chdir commands) of
             Inl e \<Rightarrow> Inl e
           | Inr commands \<Rightarrow> Inr (map (command \<circ> merge_command_dict) commands)))"

definition cli_commands :: "string option \<Rightarrow> bool \<Rightarrow> string list \<Rightarrow> error + string list" where
  "cli_commands raw_chdir is_tmsh normalized_commands =
     (case convert_commands_cli normalized_commands of
        Inl e \<Rightarrow> Inl e
      | Inr commands \<Rightarrow>
          (case (if \<not> is_tmsh then mapM addon_tmsh_cli (apply_chdir raw_chdir commands)
                 else Inr (apply_chdir raw_chdir commands)) of
             Inl e \<Rightarrow> Inl e
           | Inr commands \<Rightarrow> Inr (map (command \<circ> merge_command_dict_cli) commands)))"


section \<open>bigip_vcmp_guest\<close>

subsection \<open>Parameters\<close>

text \<open>
  The \<^verbatim>\<open>_values\<close> dictionary of a \<^verbatim>\<open>Parameters\<close> object, by canonical name (after
  \<^verbatim>\<open>api_map\<close>); a missing key reads as \<^verbatim>\<open>None\<close>. The desired side
  (\<^verbatim>\<open>ModuleParameters\<close>) and the observed side (\<^verbatim>\<open>ApiParameters\<close>) share it.
\<close>

record guest_values =
  v_partition :: string
  v_vlans :: "string list option"
  v_mgmt_network :: "string option"
  v_mgmt_address :: "string option"
  v_initial_image :: "string option"
  v_initial_hotfix :: "string option"
  v_mgmt_route :: "string option"
  v_state :: "string option"
  v_cores_per_slot :: "int option"
  v_number_of_slots :: "int option"
  v_min_number_of_slots :: "int option"
  v_allowed_slots :: "string list option"

record list_response = response +
  item_names :: "string list"

text \<open>
  What the normalizer reads from outside the module: the helpers \<^verbatim>\<open>fq_name\<close> and
  \<^verbatim>\<open>is_valid_ip\<close> of the collection's utilities, \<^verbatim>\<open>ipaddress.ip_interface\<close>
  (\<open>None\<close> for its \<^verbatim>\<open>ValueError\<close>, otherwise \<^verbatim>\<open>with_prefixlen\<close>), and the device's
  answers to the software image and hotfix listings.
\<close>

record guest_env =
  fq_name :: "string \<Rightarrow> string \<Rightarrow> string"
  is_valid_ip :: "string \<Rightarrow> bool"
  ip_interface :: "string \<Rightarrow> string option"
  image_list :: list_response
  hotfix_list :: list_response

definition updatables :: "string list" where
  "updatables = [''vlans'', ''mgmt_network'', ''mgmt_address'', ''initial_image'',
     ''initial_hotfix'', ''mgmt_route'', ''state'', ''cores_per_slot'', ''number_of_slots'',
     ''min_number_of_slots'', ''allowed_slots'']"

subsection \<open>ModuleParameters\<close>

definition mgmt_route :: "guest_env \<Rightarrow> guest_values \<Rightarrow> error + string option" where
  "mgmt_route E w =
     (case v_mgmt_route w of
        None \<Rightarrow> Inr None
      | Some r \<Rightarrow>
          if r = ''none'' then Inr (Some ''none'')
          else if is_valid_ip E r then Inr (Some r)
          else Inl (F5ModuleError (''The specified '' @ [squote] @ ''mgmt_route'' @ [squote]
                                     @ '' is not a valid IP address.'')))"

definition mgmt_address :: "guest_env \<Rightarrow> guest_values \<Rightarrow> error + string option" where
  "mgmt_address E w =
     (case v_mgmt_address w of
        None \<Rightarrow> Inr None
      | Some a \<Rightarrow>
          (case ip_interface E a of
             Some addr \<Rightarrow> Inr (Some addr)
           | None \<Rightarrow> Inl (F5ModuleError (''The specified '' @ [squote] @ ''mgmt_address''
                                          @ [squote] @ '' is not a valid IP address.''))))"

text \<open>
  \<^verbatim>\<open>mgmt_tuple\<close> splits the raw address at every slash. On a missing address
  \<^verbatim>\<open>None.split\<close> raises \<^verbatim>\<open>AttributeError\<close>, which the \<^verbatim>\<open>except ValueError\<close> does not
  catch. The result is the pair \<^verbatim>\<open>(ip, subnet)\<close>.
\<close>

definition mgmt_tuple :: "guest_values \<Rightarrow> error + (string \<times> string option)" where
  "mgmt_tuple w =
     (case v_mgmt_address w of
        None \<Rightarrow> Inl AttributeError
      | Some a \<Rightarrow>
          (case py_split (CHR ''/'') a of
             [] \<Rightarrow> Inl IndexError
           | [ip] \<Rightarrow> Inr (ip, None)
           | [ip, subnet] \<Rightarrow> Inr (ip, Some subnet)
           | _ \<Rightarrow> Inl (F5ModuleError ''The provided mgmt_address is malformed.'')))"

definition state :: "guest_values \<Rightarrow> string option" where
  "state w =
     (if v_state w = Some ''present'' then Some ''deployed''
      else if v_state w \<in> set [Some ''configured'', Some ''disabled''] then Some ''configured''
      else v_state w)"

definition vlans :: "guest_env \<Rightarrow> guest_values \<Rightarrow> string list option" where
  "vlans E w =
     (case v_vlans w of
        None \<Rightarrow> None
      | Some xs \<Rightarrow> Some (sort (map (fq_name E (v_partition w)) xs)))"

definition initial_image_exists :: "guest_env \<Rightarrow> string \<Rightarrow> error + bool" where
  "initial_image_exists E img =
     (let response = image_list E
      in if code response = 404 then Inr False
         else if \<not> ok_code (code response) then Inl (F5ModuleError (contents response))
         else Inr (\<exists>n \<in> set (item_names response). startswith n img))"

definition initial_hotfix_exists :: "guest_env \<Rightarrow> string \<Rightarrow> error + bool" where
  "initial_hotfix_exists E hotfix =
     (let response = hotfix_list E
      in if code response = 404 then Inr False
         else if \<not> ok_code (code response) then Inl (F5ModuleError (contents response))
         else Inr (\<exists>n \<in> set (item_names response). startswith n hotfix))"

definition initial_image :: "guest_env \<Rightarrow> guest_values \<Rightarrow> error + string option" where
  "initial_image E w =
     (case v_initial_image w of
        None \<Rightarrow> Inr None
      | Some img \<Rightarrow>
          (case initial_image_exists E img of
             Inl e \<Rightarrow> Inl e
           | Inr True \<Rightarrow> Inr (Some img)
           | Inr False \<Rightarrow>
               Inl (F5ModuleError (''The specified '' @ [squote] @ ''initial_image'' @ [squote]
                                     @ '' does not exist on the remote device.''))))"

definition initial_hotfix :: "guest_env \<Rightarrow> guest_values \<Rightarrow> error + string option" where
  "initial_hotfix E w =
     (case v_initial_hotfix w of
        None \<Rightarrow> Inr None
      | Some hotfix \<Rightarrow>
          (case initial_hotfix_exists E hotfix of
             Inl e \<Rightarrow> Inl e
           | Inr True \<Rightarrow> Inr (Some hotfix)
           | Inr False \<Rightarrow>
               Inl (F5ModuleError (''The specified '' @ [squote] @ ''initial_hotfix'' @ [squote]
                                     @ '' does not exist on the remote device.''))))"

definition allowed_slots :: "guest_values \<Rightarrow> string list option" where
  "allowed_slots w = (case v_allowed_slots w of None \<Rightarrow> None | Some xs \<Rightarrow> Some (sort xs))"

text \<open>
  \<^verbatim>\<open>getattr(self.want, param)\<close>: the property of \<^verbatim>\<open>ModuleParameters\<close> where there is
  one, the raw value otherwise. \<^verbatim>\<open>getattr(self.have, param)\<close>: \<^verbatim>\<open>ApiParameters\<close> has
  no property, so always the raw value.
\<close>

definition lift_attr :: "('a \<Rightarrow> pyval) \<Rightarrow> error + 'a option \<Rightarrow> error + pyval option" where
  "lift_attr f r = (case r of Inl e \<Rightarrow> Inl e | Inr v \<Rightarrow> Inr (map_option f v))"

definition want_attr :: "guest_env \<Rightarrow> guest_values \<Rightarrow> string \<Rightarrow> error + pyval option" where
  "want_attr E w param =
     (if param = ''vlans'' then Inr (map_option VList (vlans E w))
      else if param = ''mgmt_network'' then Inr (map_option VStr (v_mgmt_network w))
      else if param = ''mgmt_address'' then lift_attr VStr (mgmt_address E w)
      else if param = ''initial_image'' then lift_attr VStr (initial_image E w)
      else if param = ''initial_hotfix'' then lift_attr VStr (initial_hotfix E w)
      else if param = ''mgmt_route'' then lift_attr VStr (mgmt_route E w)
      else if param = ''state'' then Inr (map_option VStr (state w))
      else if param = ''cores_per_slot'' then Inr (map_option VInt (v_cores_per_slot w))
      else if param = ''number_of_slots'' then Inr (map_option VInt (v_number_of_slots w))
      else if param = ''min_number_of_slots'' then Inr (map_option VInt (v_min_number_of_slots w))
      else if param = ''allowed_slots'' then Inr (map_option VList (allowed_slots w))
      else Inr None)"

definition have_attr :: "guest_values \<Rightarrow> string \<Rightarrow> pyval option" where
  "have_attr h param =
     (if param = ''vlans'' then map_option VList (v_vlans h)
      else if param = ''mgmt_network'' then map_option VStr (v_mgmt_network h)
      else if param = ''mgmt_address'' then map_option VStr (v_mgmt_address h)
      else if param = ''initial_image'' then map_option VStr (v_initial_image h)
      else if param = ''initial_hotfix'' then map_option VStr (v_initial_hotfix h)
      else if param = ''mgmt_route'' then map_option VStr (v_mgmt_route h)
      else if param = ''state'' then map_option VStr (v_state h)
      else if param = ''cores_per_slot'' then map_option VInt (v_cores_per_slot h)
      else if param = ''number_of_slots'' then map_option VInt (v_number_of_slots h)
      else if param = ''min_number_of_slots'' then map_option VInt (v_min_number_of_slots h)
      else if param = ''allowed_slots'' then map_option VList (v_allowed_slots h)
      else None)"

subsection \<open>Difference\<close>

text \<open>\<^verbatim>\<open>__default\<close>: the desired value when it is not equal to the observed one.\<close>

definition default_compare ::
  "guest_env \<Rightarrow> guest_values \<Rightarrow> guest_values \<Rightarrow> string \<Rightarrow> error + pyval option" where
  "default_compare E want have param =
     (case want_attr E want param of
        Inl e \<Rightarrow> Inl e
      | Inr attr1 \<Rightarrow> if attr1 \<noteq> have_attr have param then Inr attr1 else Inr None)"

definition diff_mgmt_address ::
  "guest_env \<Rightarrow> guest_values \<Rightarrow> guest_values \<Rightarrow> error + pyval option" where
  "diff_mgmt_address E want have =
     (case mgmt_tuple want of
        Inl e \<Rightarrow> Inl e
      | Inr (ip, subnet) \<Rightarrow>
          if subnet = None then
            Inl (F5ModuleError ''A subnet must be specified when changing the mgmt_address.'')
          else
            (case mgmt_address E want of
               Inl e \<Rightarrow> Inl e
             | Inr a \<Rightarrow> if a \<noteq> v_mgmt_address have then Inr (map_option VStr a) else Inr None))"

definition diff_allowed_slots :: "guest_values \<Rightarrow> guest_values \<Rightarrow> error + pyval option" where
  "diff_allowed_slots want have =
     (case allowed_slots want of
        None \<Rightarrow> Inr None
      | Some ws \<Rightarrow>
          (case v_allowed_slots have of
             None \<Rightarrow> Inr (Some (VList ws))
           | Some hs \<Rightarrow> if set ws \<noteq> set hs then Inr (Some (VList ws)) else Inr None))"

text \<open>
  \<^verbatim>\<open>compare\<close> reads the property of \<^verbatim>\<open>Difference\<close> named by the parameter and falls
  back to \<^verbatim>\<open>__default\<close> on \<^verbatim>\<open>AttributeError\<close>: when there is no such property, and
  also when the property itself raised it.
\<close>

definition compare ::
  "guest_env \<Rightarrow> guest_values \<Rightarrow> guest_values \<Rightarrow> string \<Rightarrow> error + pyval option" where
  "compare E want have param =
     (let result =
        (if param = ''mgmt_address'' then diff_mgmt_address E want have
         else if param = ''allowed_slots'' then diff_allowed_slots want have
         else Inl AttributeError)
      in if result = Inl AttributeError then default_compare E want have param else result)"

subsection \<open>ModuleManager\<close>

text \<open>The loop of \<^verbatim>\<open>_update_changed_options\<close> filling the dictionary \<^verbatim>\<open>changed\<close>.\<close>

primrec collect_changes ::
  "guest_env \<Rightarrow> guest_values \<Rightarrow> guest_values \<Rightarrow> string list \<Rightarrow> error + (string \<times> pyval) list" where
  "collect_changes E want have [] = Inr []"
| "collect_changes E want have (k # ks) =
     (case compare E want have k of
        Inl e \<Rightarrow> Inl e
      | Inr change \<Rightarrow>
          (case collect_changes E want have ks of
             Inl e \<Rightarrow> Inl e
           | Inr changed \<Rightarrow>
               (case change of None \<Rightarrow> Inr changed | Some v \<Rightarrow> Inr ((k, v) # changed))))"

text \<open>The result pairs the change set with the boolean the method returns.\<close>

definition update_changed_options ::
  "guest_env \<Rightarrow> guest_values \<Rightarrow> guest_values \<Rightarrow> error + ((string \<times> pyval) list \<times> bool)" where
  "update_changed_options E want have =
     (case collect_changes E want have updatables of
        Inl e \<Rightarrow> Inl e
      | Inr changed \<Rightarrow> if changed \<noteq> [] then Inr (changed, True) else Inr (changed, False))"

definition should_update :: "guest_env \<Rightarrow> guest_values \<Rightarrow> guest_values \<Rightarrow> error + bool" where
  "should_update E want have =
     (case update_changed_options E want have of
        Inl e \<Rightarrow> Inl e
      | Inr (changed, result) \<Rightarrow> if result then Inr True else Inr False)"

record guest_response = response +
  guest :: guest_values

definition read_current_from_device :: "guest_response \<Rightarrow> error + guest_values" where
  "read_current_from_device response =
     (if \<not> ok_code (code response) then Inl (F5ModuleError (contents response))
      else Inr (guest response))"

text \<open>
  \<^verbatim>\<open>update\<close>. What follows the check-mode test (\<^verbatim>\<open>configure\<close>, \<^verbatim>\<open>update_on_device\<close>,
  \<^verbatim>\<open>provision\<close>, \<^verbatim>\<open>deploy\<close>) talks to the device only; \<open>on_device\<close> is its outcome.
\<close>

definition update ::
  "guest_env \<Rightarrow> guest_values \<Rightarrow> guest_response \<Rightarrow> bool \<Rightarrow> error + unit \<Rightarrow> error + bool" where
  "update E want response check_mode on_device =
     (case read_current_from_device response of
        Inl e \<Rightarrow> Inl e
      | Inr have \<Rightarrow>
          (case should_update E want have of
             Inl e \<Rightarrow> Inl e
           | Inr su \<Rightarrow>
               if \<not> su then Inr False
               else if check_mode then Inr True
               else (case on_device of Inl e \<Rightarrow> Inl e | Inr u \<Rightarrow> Inr True)))"

definition exists :: "response \<Rightarrow> error + bool" where
  "exists response =
     (if code response = 404 then Inr False
      else if ok_code (code response) then Inr True
      else Inl (F5ModuleError (contents response)))"

text \<open>
  \<^verbatim>\<open>present\<close> and \<^verbatim>\<open>exec_module\<close>, reduced to the \<^verbatim>\<open>changed\<close> flag of the result;
  \<open>created\<close> and \<open>removed\<close> are the outcomes of \<^verbatim>\<open>create\<close> and \<^verbatim>\<open>absent\<close>.
\<close>

definition present ::
  "guest_env \<Rightarrow> guest_values \<Rightarrow> response \<Rightarrow> guest_response \<Rightarrow> bool \<Rightarrow> error + unit
     \<Rightarrow> error + bool \<Rightarrow> error + bool" where
  "present E want ex response check_mode on_device created =
     (case exists ex of
        Inl e \<Rightarrow> Inl e
      | Inr True \<Rightarrow> update E want response check_mode on_device
      | Inr False \<Rightarrow> created)"

definition exec_module ::
  "guest_env \<Rightarrow> guest_values \<Rightarrow> response \<Rightarrow> guest_response \<Rightarrow> bool \<Rightarrow> error + unit
     \<Rightarrow> error + bool \<Rightarrow> error + bool \<Rightarrow> error + bool" where
  "exec_module E want ex response check_mode on_device created removed =
     (if state want \<in> set [Some ''configured'', Some ''provisioned'', Some ''deployed'']
      then present E want ex response check_mode on_device created
      else if state want = Some ''absent'' then removed
      else Inr False)"


subsection \<open>Sample inputs\<close>

text \<open>
  A parameter object with nothing set, and surroundings in which \<^verbatim>\<open>fq_name\<close> puts the
  partition before a relative name and \<^verbatim>\<open>ip_interface\<close> knows two addresses: a bare
  host address, which it gives the prefix length 32, and one with its prefix length.
\<close>

definition no_values :: guest_values where
  "no_values = \<lparr>v_partition = ''Common'', v_vlans = None, v_mgmt_network = None,
     v_mgmt_address = None, v_initial_image = None, v_initial_hotfix = None,
     v_mgmt_route = None, v_state = None, v_cores_per_slot = None, v_number_of_slots = None,
     v_min_number_of_slots = None, v_allowed_slots = None\<rparr>"

definition sample_env :: guest_env where
  "sample_env = \<lparr>
     fq_name = (\<lambda>partition n. if startswith n ''/'' then n else ''/'' @ partition @ ''/'' @ n),
     is_valid_ip = (\<lambda>a. a = ''10.0.0.1''),
     ip_interface = map_of [(''10.0.0.5'', ''10.0.0.5/32''), (''10.0.0.5/24'', ''10.0.0.5/24'')],
     image_list = \<lparr>code = 200, contents = [], item_names = []\<rparr>,
     hotfix_list = \<lparr>code = 200, contents = [], item_names = []\<rparr>\<rparr>"


section \<open>Device calls and other effects\<close>

text \<open>
  A run of a manager method is its outcome together with the calls it issued, in order:
  the HTTP requests by method and URI, the sleeps by their duration in seconds, the work
  on local files by name. An exception ends the run and keeps the calls issued so far.
\<close>

datatype call =
    GET string | POST string | PUT string | PATCH string | DELETE string
  | SLEEP rat
  | LOCAL string

type_synonym 'a run = "(error + 'a) \<times> call list"

definition ret :: "'a \<Rightarrow> 'a run" where
  "ret a = (Inr a, [])"

definition raise :: "error \<Rightarrow> 'a run" where
  "raise e = (Inl e, [])"

definition step :: "call \<Rightarrow> 'a \<Rightarrow> 'a run" where
  "step c answer = (Inr answer, [c])"

definition bind :: "'a run \<Rightarrow> ('a \<Rightarrow> 'b run) \<Rightarrow> 'b run" where
  "bind m f =
     (case m of
        (Inl e, t) \<Rightarrow> (Inl e, t)
      | (Inr a, t) \<Rightarrow> (case f a of (r, t') \<Rightarrow> (r, t @ t')))"

definition after :: "call list \<Rightarrow> 'a run \<Rightarrow> 'a run" where
  "after cs m = (fst m, cs @ snd m)"

definition lift :: "error + 'a \<Rightarrow> 'a run" where
  "lift r = (r, [])"

definition mutating :: "call \<Rightarrow> bool" where
  "mutating c = (case c of POST u \<Rightarrow> True | PUT u \<Rightarrow> True | PATCH u \<Rightarrow> True
                  | DELETE u \<Rightarrow> True | _ \<Rightarrow> False)"


section \<open>bigip_ucs_fetch\<close>

record ucs_want =
  u_task_id :: "string option"
  u_only_create_file :: bool
  u_force :: bool
  u_backup :: bool
  u_fail_on_missing :: bool
  u_create_on_missing :: bool
  u_src :: string
  u_dest :: string
  u_timeout :: int
  u_encryption_password :: "string option"

record collection_response = response +
  filenames :: "string list option"

record task_result = response +
  task_state :: "string option"

record task_created = response +
  task_ident :: string

text \<open>
  What a run meets outside the module. On the device: the UCS collection (\<open>filenames\<close>
  is \<open>None\<close> when the answer has no \<^verbatim>\<open>items\<close>), the task resource, the answer to the
  \<open>n\<close>-th read of the task result (\<open>task_state\<close> is \<open>None\<close> when the answer has no
  \<^verbatim>\<open>_taskState\<close>), the answers to creating and starting a task. On the controller:
  the \<^verbatim>\<open>fulldest\<close> property (it inspects the local file system and may raise), whether
  that file exists, whether the transfer raises \<^verbatim>\<open>IOError\<close>, whether the destination
  exists afterwards, the backup file name, the checksums (\<open>None\<close> for \<^verbatim>\<open>ValueError\<close>),
  and check mode.
\<close>

record ucs_world =
  ucs_collection :: collection_response
  task_resource :: response
  task_results :: "nat \<Rightarrow> task_result"
  create_task_answer :: task_created
  start_task_answer :: response
  fulldest :: "error + string"
  fulldest_exists :: bool
  io_error :: bool
  dest_exists :: bool
  backup_local :: string
  sha1 :: "string option"
  md5 :: "string option"
  ucs_check_mode :: bool

subsection \<open>ModuleParameters\<close>

text \<open>
  \<^verbatim>\<open>timeout\<close> returns the pair \<^verbatim>\<open>(delay, divisor)\<close>. The delay is the quotient
  \<^verbatim>\<open>timeout / 100\<close>, kept exact here.
\<close>

definition timeout :: "ucs_want \<Rightarrow> error + (rat \<times> nat)" where
  "timeout w =
     (let divisor = 100; t = u_timeout w
      in if t < 150 \<or> t > 1800
         then Inl (F5ModuleError ''Timeout value must be between 150 and 1800 seconds.'')
         else Inr (of_int t / of_nat divisor, divisor))"

subsection \<open>ModuleManager\<close>

definition task_uri :: "string \<Rightarrow> string" where
  "task_uri task = ''/mgmt/tm/task/sys/ucs/'' @ task"

definition result_uri :: "string \<Rightarrow> string" where
  "result_uri task = ''/mgmt/tm/task/sys/ucs/'' @ task @ ''/result''"

definition check_task_exists_on_device :: "ucs_world \<Rightarrow> string \<Rightarrow> bool run" where
  "check_task_exists_on_device W task =
     bind (step (GET (task_uri task)) (task_resource W)) (\<lambda>response.
       if ok_code (code response) then ret True
       else raise (F5ModuleError (''The task with the given task_id: '' @ task
                                    @ '' does not exist.'')))"

definition task_failed :: error where
  "task_failed = F5ModuleError ''Task failed unexpectedly.''"

definition timeout_reached :: error where
  "timeout_reached = F5ModuleError
     (''Module timeout reached, state change is unknown, ''
      @ ''please increase the timeout parameter for long lived actions.'')"

text \<open>
  The loop \<^verbatim>\<open>for x in range(0, period)\<close> of \<^verbatim>\<open>async_wait\<close> over the list of its
  indices, and the \<^verbatim>\<open>raise\<close> after it.
\<close>

primrec poll :: "ucs_world \<Rightarrow> string \<Rightarrow> rat \<Rightarrow> nat list \<Rightarrow> bool run" where
  "poll W uri delay [] = raise timeout_reached"
| "poll W uri delay (x # xs) =
     (let response = task_results W x
      in if ok_code (code response) then
           (case task_state response of
              None \<Rightarrow> (Inl (KeyError ''_taskState''), [GET uri])
            | Some st \<Rightarrow>
                if st = ''FAILED'' then (Inl task_failed, [GET uri])
                else if st = ''COMPLETED'' then (Inr True, [GET uri])
                else after [GET uri, SLEEP delay] (poll W uri delay xs))
         else after [GET uri, SLEEP delay] (poll W uri delay xs))"

definition async_wait :: "ucs_world \<Rightarrow> ucs_want \<Rightarrow> string \<Rightarrow> bool run" where
  "async_wait W want task =
     bind (check_task_exists_on_device W task) (\<lambda>_.
       case timeout want of
         Inl e \<Rightarrow> raise e
       | Inr (delay, period) \<Rightarrow>
           poll W (result_uri task) delay [0..<period])"

text \<open>
  Reading a run of \<^verbatim>\<open>async_wait\<close>. An answer keeps the loop going when its code is
  not a success code or its state is neither \<^verbatim>\<open>FAILED\<close> nor \<^verbatim>\<open>COMPLETED\<close>; it
  ends the loop when a success code comes with one of the two. \<open>polls\<close> counts the
  reads of the result endpoint in a list of calls, and \<open>rounds\<close> is \<open>k\<close> times a
  read followed by a sleep.
\<close>

definition pending :: "task_result \<Rightarrow> bool" where
  "pending r \<longleftrightarrow>
     \<not> ok_code (code r)
     \<or> (case task_state r of None \<Rightarrow> False | Some st \<Rightarrow> st \<noteq> ''FAILED'' \<and> st \<noteq> ''COMPLETED'')"

definition completed :: "task_result \<Rightarrow> bool" where
  "completed r \<longleftrightarrow> ok_code (code r) \<and> task_state r = Some ''COMPLETED''"

definition failed :: "task_result \<Rightarrow> bool" where
  "failed r \<longleftrightarrow> ok_code (code r) \<and> task_state r = Some ''FAILED''"

definition polls :: "string \<Rightarrow> call list \<Rightarrow> nat" where
  "polls uri tr = length (filter (\<lambda>c. c = GET uri) tr)"

definition rounds :: "string \<Rightarrow> rat \<Rightarrow> nat \<Rightarrow> call list" where
  "rounds uri delay k = concat (replicate k [GET uri, SLEEP delay])"

definition basename :: "string \<Rightarrow> string" where
  "basename p = rev (takeWhile (\<lambda>c. c \<noteq> CHR ''/'') (rev p))"

definition read_current_ucs :: "ucs_world \<Rightarrow> string list run" where
  "read_current_ucs W =
     bind (step (GET ''/mgmt/tm/sys/ucs'') (ucs_collection W)) (\<lambda>response.
       if \<not> ok_code (code response) then raise (F5ModuleError (contents response))
       else (case filenames response of None \<Rightarrow> ret [] | Some fs \<Rightarrow> ret fs))"

definition exists_ucs :: "ucs_world \<Rightarrow> ucs_want \<Rightarrow> bool run" where
  "exists_ucs W want =
     bind (read_current_ucs W) (\<lambda>collection.
       ret (\<exists>x \<in> set collection. basename (u_src want) = basename x))"

text \<open>\<^verbatim>\<open>download\<close> with \<^verbatim>\<open>download_from_device\<close>; an \<^verbatim>\<open>IOError\<close> comes out as \<open>None\<close>.\<close>

definition download :: "ucs_world \<Rightarrow> ucs_want \<Rightarrow> bool option run" where
  "download W want =
     bind (step (GET (''/mgmt/shared/file-transfer/ucs-downloads/'' @ u_src want)) (io_error W))
       (\<lambda>failed.
          if failed then ret None
          else if dest_exists W then ret (Some True)
          else raise (F5ModuleError ''Failed to download the remote file''))"

text \<open>
  The methods return the entries they put into \<^verbatim>\<open>self.changes\<close>. \<^verbatim>\<open>execute\<close>: backup
  and download under \<^verbatim>\<open>try\<close>, then checksums and file attributes.
\<close>

definition execute :: "ucs_world \<Rightarrow> ucs_want \<Rightarrow> (string \<times> string option) list run" where
  "execute W want =
     bind (lift (fulldest W)) (\<lambda>fd.
     bind (if u_backup want \<and> fulldest_exists W
           then step (LOCAL ''backup_local'') [(''backup_file'', Some (backup_local W))]
           else ret []) (\<lambda>backup.
     bind (download W want) (\<lambda>d.
       case d of
         None \<Rightarrow> raise (F5ModuleError (''Failed to copy: '' @ u_src want @ '' to '' @ fd))
       | Some _ \<Rightarrow>
           bind (step (LOCAL ''sha1'') (sha1 W)) (\<lambda>checksum.
           bind (step (LOCAL ''md5'') (md5 W)) (\<lambda>md5sum.
           bind (step (LOCAL ''set_fs_attributes_if_different'') ()) (\<lambda>_.
             ret (backup @ [(''src'', Some (u_src want)), (''md5sum'', md5sum),
                            (''checksum'', checksum)])))))))"

definition update_ucs :: "ucs_world \<Rightarrow> ucs_want \<Rightarrow> (string \<times> string option) list run" where
  "update_ucs W want =
     bind (lift (fulldest W)) (\<lambda>fd.
       if fulldest_exists W \<and> \<not> u_force want
       then raise (F5ModuleError (''File '' @ [squote] @ fd @ [squote] @ '' already exists''))
       else execute W want)"

definition create_async_task_on_device :: "ucs_world \<Rightarrow> ucs_want \<Rightarrow> string run" where
  "create_async_task_on_device W want =
     bind (step (POST ''/mgmt/tm/task/sys/ucs'') (create_task_answer W)) (\<lambda>response.
       if ok_code (code response) then ret (task_ident response)
       else raise (F5ModuleError (contents response)))"

definition start_task_on_device :: "ucs_world \<Rightarrow> string \<Rightarrow> bool run" where
  "start_task_on_device W task =
     bind (step (PUT (task_uri task)) (start_task_answer W)) (\<lambda>response.
       if ok_code (code response) then ret True
       else raise (F5ModuleError (contents response)))"

definition create_on_device :: "ucs_world \<Rightarrow> ucs_want \<Rightarrow> (string \<times> string option) list run" where
  "create_on_device W want =
     bind (create_async_task_on_device W want) (\<lambda>task.
     bind (start_task_on_device W task) (\<lambda>_.
       ret [(''task_id'', Some task), (''src'', Some (u_src want)),
            (''message'', Some (''UCS async task started with id: '' @ task))]))"

definition not_found :: "ucs_want \<Rightarrow> error" where
  "not_found want =
     F5ModuleError (''UCS '' @ [squote] @ u_src want @ [squote] @ '' was not found'')"

definition create_ucs :: "ucs_world \<Rightarrow> ucs_want \<Rightarrow> (string \<times> string option) list run" where
  "create_ucs W want =
     (if u_fail_on_missing want then raise (not_found want)
      else if \<not> u_create_on_missing want then raise (not_found want)
      else if ucs_check_mode W then ret []
      else if u_create_on_missing want then create_on_device W want
      else ret [])"

definition check_task :: "ucs_world \<Rightarrow> ucs_want \<Rightarrow> string \<Rightarrow> (string \<times> string option) list run" where
  "check_task W want task = bind (async_wait W want task) (\<lambda>_. update_ucs W want)"

text \<open>\<^verbatim>\<open>if self.want.task_id:\<close> holds for a non-empty string.\<close>

definition present_ucs :: "ucs_world \<Rightarrow> ucs_want \<Rightarrow> (string \<times> string option) list run" where
  "present_ucs W want =
     (case u_task_id want of
        Some (c # cs) \<Rightarrow> check_task W want (c # cs)
      | _ \<Rightarrow>
          bind (exists_ucs W want) (\<lambda>ex.
            if ex then (if \<not> u_only_create_file want then update_ucs W want else ret [])
            else create_ucs W want))"

text \<open>
  The result of \<^verbatim>\<open>exec_module\<close>: the entries of \<^verbatim>\<open>changes\<close> that are set, and the
  \<^verbatim>\<open>changed\<close> flag.
\<close>

record ucs_result =
  r_reported :: "(string \<times> string) list"
  r_changed :: bool

definition to_return :: "(string \<times> string option) list \<Rightarrow> (string \<times> string) list" where
  "to_return changes = concat (map (\<lambda>(k, v). case v of None \<Rightarrow> [] | Some x \<Rightarrow> [(k, x)]) changes)"

definition exec_module_ucs :: "ucs_world \<Rightarrow> ucs_want \<Rightarrow> ucs_result run" where
  "exec_module_ucs W want =
     bind (present_ucs W want) (\<lambda>changes.
       ret \<lparr>r_reported = to_return changes, r_changed = True\<rparr>)"


subsection \<open>Sample inputs\<close>

text \<open>
  A device that holds the archive \<^verbatim>\<open>backup.ucs\<close> and knows the task, whose result
  reads \<^verbatim>\<open>VALIDATING\<close> twice and \<^verbatim>\<open>COMPLETED\<close> from then on; the same device with a
  task that never leaves \<^verbatim>\<open>VALIDATING\<close>; and a request for that archive.
\<close>

definition sample_world :: ucs_world where
  "sample_world = \<lparr>
     ucs_collection = \<lparr>code = 200, contents = [],
                        filenames = Some [''/var/local/ucs/backup.ucs'']\<rparr>,
     task_resource = \<lparr>code = 200, contents = []\<rparr>,
     task_results = (\<lambda>n. \<lparr>code = 200, contents = [],
                             task_state = Some (if n < 2 then ''VALIDATING'' else ''COMPLETED'')\<rparr>),
     create_task_answer = \<lparr>code = 200, contents = [], task_ident = ''42''\<rparr>,
     start_task_answer = \<lparr>code = 200, contents = []\<rparr>,
     fulldest = Inr ''/tmp/backup.ucs'',
     fulldest_exists = False,
     io_error = False,
     dest_exists = True,
     backup_local = ''/tmp/backup.ucs.bak'',
     sha1 = Some ''da39a3ee'',
     md5 = Some ''d41d8cd9'',
     ucs_check_mode = False\<rparr>"

definition stuck_world :: ucs_world where
  "stuck_world = sample_world\<lparr>task_results :=
     (\<lambda>n. \<lparr>code = 200, contents = [], task_state = Some ''VALIDATING''\<rparr>)\<rparr>"

definition sample_request :: ucs_want where
  "sample_request = \<lparr>u_task_id = None, u_only_create_file = False, u_force = True,
     u_backup = False, u_fail_on_missing = False, u_create_on_missing = True,
     u_src = ''backup.ucs'', u_dest = ''/tmp/backup.ucs'', u_timeout = 150,
     u_encryption_password = None\<rparr>"


section \<open>bigiq_device_discovery\<close>

subsection \<open>Parameters\<close>

text \<open>The module parameters as \<^verbatim>\<open>ModuleParameters\<close> holds them in \<^verbatim>\<open>_values\<close>.\<close>

record discovery_values =
  d_device_address :: string
  d_modules :: "string list option"
  d_conflict_policy :: string
  d_device_conflict_policy :: string
  d_versioned_conflict_policy :: "string option"
  d_access_conflict_policy :: "string option"
  d_access_group_name :: "string option"
  d_access_group_first_device :: "bool option"
  d_statistics_enable :: "bool option"
  d_force :: bool

text \<open>
  One entry of the \<^verbatim>\<open>properties\<close> dictionary the device reports for a machine:
  the flags \<^verbatim>\<open>discovered\<close> and \<^verbatim>\<open>imported\<close>, and the value under
  \<^verbatim>\<open>cm:access:access-group-name\<close> when the entry has that key.
\<close>

record module_properties =
  discovered :: bool
  imported :: bool
  access_group :: "string option"

record machine_response = response +
  properties :: "(string \<times> module_properties) list option"

subsection \<open>ApiParameters\<close>

definition api_module_map :: "(string \<times> string) list" where
  "api_module_map =
     [(''cm-security-shared-allSharedDevices'', ''security_shared''),
      (''cm-asm-allAsmDevices'', ''asm''),
      (''cm-firewall-allFirewallDevices'', ''firewall''),
      (''cm-websafe-allFpsDevices'', ''fps''),
      (''cm-dns-allBigIpDevices'', ''dns''),
      (''cm-adccore-allbigipDevices'', ''adc_core''),
      (''cm-access-allBigIpDevices'', ''access'')]"

definition api_modules :: "(string \<times> module_properties) list option \<Rightarrow> string list option" where
  "api_modules raw_data =
     (case raw_data of
        None \<Rightarrow> None
      | Some items \<Rightarrow>
          Some (concat (map (\<lambda>(item, p).
                  case map_of api_module_map item of
                    None \<Rightarrow> []
                  | Some m \<Rightarrow> if discovered p \<and> imported p then [m] else []) items)))"

definition api_access_group_name ::
  "(string \<times> module_properties) list option \<Rightarrow> string option" where
  "api_access_group_name raw_data =
     (case raw_data of
        None \<Rightarrow> None
      | Some items \<Rightarrow>
          (case filter (\<lambda>(item, p). access_group p \<noteq> None) items of
             [] \<Rightarrow> None
           | (item, p) # _ \<Rightarrow> access_group p))"

subsection \<open>ModuleParameters\<close>

definition module_map :: "(string \<times> string) list" where
  "module_map = [(''ltm'', ''adc_core''), (''afm'', ''firewall''), (''websafe'', ''fps''),
                 (''apm'', ''access'')]"

definition device_conflict_policy :: "discovery_values \<Rightarrow> string" where
  "device_conflict_policy w = py_upper (d_device_conflict_policy w)"

definition access_conflict_policy :: "discovery_values \<Rightarrow> string option" where
  "access_conflict_policy w =
     (case d_access_conflict_policy w of
        None \<Rightarrow> None
      | Some _ \<Rightarrow> Some (py_upper (d_device_conflict_policy w)))"

text \<open>\<^verbatim>\<open>not x\<close> for an optional string: \<^verbatim>\<open>None\<close> or empty.\<close>

definition falsy :: "string option \<Rightarrow> bool" where
  "falsy x \<longleftrightarrow> x = None \<or> x = Some []"

definition modules :: "discovery_values \<Rightarrow> error + string list option" where
  "modules w =
     (case d_modules w of
        None \<Rightarrow> Inr None
      | Some ms \<Rightarrow>
          if ''security_shared'' \<notin> set ms \<and> ''afm'' \<in> set ms then
            Inl (F5ModuleError (''Module '' @ [squote] @ ''shared_security'' @ [squote]
                   @ '' required for '' @ [squote] @ ''afm'' @ [squote] @ '' module.''))
          else if ''security_shared'' \<notin> set ms \<and> ''asm'' \<in> set ms then
            Inl (F5ModuleError (''Module '' @ [squote] @ ''shared_security'' @ [squote]
                   @ '' required for '' @ [squote] @ ''asm'' @ [squote] @ '' module.''))
          else if ''ltm'' \<notin> set ms then
            Inl (F5ModuleError ''LTM module must be specified for device discovery and import.'')
          else if ''apm'' \<in> set ms
                  \<and> (falsy (d_access_group_name w) \<or> falsy (access_conflict_policy w)) then
            Inl (F5ModuleError (''When importing APM '' @ [squote] @ ''access_group_name''
                   @ [squote] @ '' and '' @ [squote] @ ''access_conflict_policy'' @ [squote]
                   @ '' must be specified.''))
          else Inr (Some (map (\<lambda>item. case map_of module_map item of
                                        Some m \<Rightarrow> m | None \<Rightarrow> item) ms)))"

text \<open>
  \<^verbatim>\<open>flatten_boolean\<close> belongs to the collection's utilities and is taken as given; the
  property keeps \<^verbatim>\<open>True\<close> for its answer \<^verbatim>\<open>yes\<close>, \<^verbatim>\<open>False\<close> for any other non-empty
  answer, and nothing otherwise.
\<close>

definition access_group_first_device ::
  "(bool option \<Rightarrow> string option) \<Rightarrow> discovery_values \<Rightarrow> bool option" where
  "access_group_first_device flatten_boolean w =
     (let result = flatten_boolean (d_access_group_first_device w)
      in if \<not> falsy result then (if result = Some ''yes'' then Some True else Some False)
         else None)"

definition stats_enabled ::
  "(bool option \<Rightarrow> string option) \<Rightarrow> discovery_values \<Rightarrow> bool option" where
  "stats_enabled flatten_boolean w =
     (let result = flatten_boolean (d_statistics_enable w)
      in if \<not> falsy result then (if result = Some ''yes'' then Some True else Some False)
         else None)"

text \<open>The dictionary \<^verbatim>\<open>apm_properties\<close> builds, in the order it is written.\<close>

definition apm_properties ::
  "(bool option \<Rightarrow> string option) \<Rightarrow> discovery_values \<Rightarrow> (string \<times> pyval option) list option"
  where
  "apm_properties flatten_boolean w =
     (case d_modules w of
        None \<Rightarrow> None
      | Some ms \<Rightarrow>
          if ''apm'' \<in> set ms then
            Some [(''cm:access:conflict-resolution'', map_option VStr (access_conflict_policy w)),
                  (''cm:access:access-group-name'', map_option VStr (d_access_group_name w)),
                  (''cm:access:import-shared'',
                     map_option VBool (access_group_first_device flatten_boolean w))]
          else None)"

subsection \<open>Difference\<close>

datatype change = Modules "string list" | ApmProperties "(string \<times> pyval option) list option"

definition diff_modules ::
  "discovery_values \<Rightarrow> (string \<times> module_properties) list option \<Rightarrow> error + change option" where
  "diff_modules want have =
     (case modules want of
        Inl e \<Rightarrow> Inl e
      | Inr None \<Rightarrow> Inr None
      | Inr (Some ws) \<Rightarrow>
          (case api_modules have of
             None \<Rightarrow> Inr (Some (Modules ws))
           | Some hs \<Rightarrow>
               if set ws \<subseteq> set hs then Inr None
               else if set ws \<noteq> set hs then Inr (Some (Modules ws))
               else Inr None))"

definition immutable_access_group :: error where
  "immutable_access_group = F5ModuleError ''Access group name cannot be modified once it is set.''"

definition diff_access_group_name ::
  "discovery_values \<Rightarrow> (string \<times> module_properties) list option \<Rightarrow> error + change option" where
  "diff_access_group_name want have =
     (if d_access_group_name want \<noteq> api_access_group_name have
      then Inl immutable_access_group
      else Inr None)"

definition discovery_updatables :: "string list" where
  "discovery_updatables = [''modules'', ''access_group_name'', ''apm_properties'', ''module_list'']"

text \<open>
  \<^verbatim>\<open>compare\<close>: \<^verbatim>\<open>modules\<close>, \<^verbatim>\<open>access_group_name\<close> and \<^verbatim>\<open>apm_properties\<close> are
  properties of \<^verbatim>\<open>Difference\<close>. \<^verbatim>\<open>module_list\<close> goes to \<^verbatim>\<open>__default\<close>, where both
  sides read \<^verbatim>\<open>None\<close> (neither holds such a value), and so does any other name.
\<close>

definition compare_discovery ::
  "discovery_values \<Rightarrow> (string \<times> module_properties) list option \<Rightarrow> string
     \<Rightarrow> error + change option" where
  "compare_discovery want have param =
     (if param = ''modules'' then diff_modules want have
      else if param = ''access_group_name'' then diff_access_group_name want have
      else if param = ''apm_properties'' then Inr None
      else Inr None)"

subsection \<open>ModuleManager\<close>

primrec collect_discovery_changes ::
  "discovery_values \<Rightarrow> (string \<times> module_properties) list option \<Rightarrow> string list
     \<Rightarrow> error + (string \<times> change) list" where
  "collect_discovery_changes want have [] = Inr []"
| "collect_discovery_changes want have (k # ks) =
     (case compare_discovery want have k of
        Inl e \<Rightarrow> Inl e
      | Inr c \<Rightarrow>
          (case collect_discovery_changes want have ks of
             Inl e \<Rightarrow> Inl e
           | Inr changed \<Rightarrow>
               (case c of None \<Rightarrow> Inr changed | Some v \<Rightarrow> Inr ((k, v) # changed))))"

definition update_changed_options_discovery ::
  "(bool option \<Rightarrow> string option) \<Rightarrow> discovery_values
     \<Rightarrow> (string \<times> module_properties) list option \<Rightarrow> error + ((string \<times> change) list \<times> bool)"
  where
  "update_changed_options_discovery flatten_boolean want have =
     (case collect_discovery_changes want have discovery_updatables of
        Inl e \<Rightarrow> Inl e
      | Inr changed \<Rightarrow>
          if changed \<noteq> []
          then Inr (changed @ [(''apm_properties'',
                                ApmProperties (apm_properties flatten_boolean want))], True)
          else Inr (changed, False))"

text \<open>
  What \<^verbatim>\<open>update\<close> meets: the device's answer to the read of the machine, the helpers
  \<^verbatim>\<open>flatten_boolean\<close> and \<^verbatim>\<open>is_valid_ip\<close>, check mode, and the runs of the three
  operations that change the device (discovery, import, enabling statistics), each
  with the calls it issues.
\<close>

record discovery_world =
  machine :: machine_response
  flatten_boolean :: "bool option \<Rightarrow> string option"
  valid_ip :: "string \<Rightarrow> bool"
  discovery_check_mode :: bool
  discover_on_device :: "unit run"
  import_modules_on_device :: "unit run"
  enable_stats_on_device :: "unit run"

definition read_current_from_machine ::
  "discovery_world \<Rightarrow> string \<Rightarrow> (string \<times> module_properties) list option run" where
  "read_current_from_machine W device_id =
     bind (step (GET (''/mgmt/cm/system/machineid-resolver/'' @ device_id)) (machine W))
       (\<lambda>response.
          if \<not> ok_code (code response) then raise (F5ModuleError (contents response))
          else ret (properties response))"

text \<open>
  \<^verbatim>\<open>_set_changed_options\<close> reads every returnable of the desired side; the properties
  that can raise are \<^verbatim>\<open>device_address\<close> and \<^verbatim>\<open>modules\<close>.
\<close>

definition set_changed_options :: "discovery_world \<Rightarrow> discovery_values \<Rightarrow> error + unit" where
  "set_changed_options W want =
     (if \<not> valid_ip W (d_device_address want)
      then Inl (F5ModuleError (''Provided device address: '' @ d_device_address want
                                 @ '' is not a valid IP.''))
      else (case modules want of Inl e \<Rightarrow> Inl e | Inr _ \<Rightarrow> Inr ()))"

definition update_discovery :: "discovery_world \<Rightarrow> discovery_values \<Rightarrow> string \<Rightarrow> bool run" where
  "update_discovery W want device_id =
     bind (read_current_from_machine W device_id) (\<lambda>have.
     bind (lift (update_changed_options_discovery (flatten_boolean W) want have)) (\<lambda>(changed, su).
       if \<not> su \<and> \<not> d_force want then ret False
       else if discovery_check_mode W then ret True
       else
         bind (if d_force want then lift (set_changed_options W want) else ret ()) (\<lambda>_.
         bind (discover_on_device W) (\<lambda>_.
         bind (import_modules_on_device W) (\<lambda>_.
         bind (if stats_enabled (flatten_boolean W) want = Some True
               then enable_stats_on_device W else ret ()) (\<lambda>_.
           ret True))))))"

subsection \<open>Sample inputs\<close>

text \<open>
  A request to import LTM and APM with the access group \<^verbatim>\<open>group2\<close>, and a BIG-IQ on
  which the machine is already discovered in the access group \<^verbatim>\<open>group1\<close>. The three
  operations on the device would each run a task through \<^verbatim>\<open>POST\<close> and one read.
\<close>

definition sample_discovery :: discovery_values where
  "sample_discovery = \<lparr>d_device_address = ''10.1.1.1'', d_modules = Some [''ltm'', ''apm''],
     d_conflict_policy = ''use_bigiq'', d_device_conflict_policy = ''use_bigip'',
     d_versioned_conflict_policy = None, d_access_conflict_policy = Some ''keep_version'',
     d_access_group_name = Some ''group2'', d_access_group_first_device = Some True,
     d_statistics_enable = None, d_force = False\<rparr>"

definition sample_flatten :: "bool option \<Rightarrow> string option" where
  "sample_flatten v = (case v of None \<Rightarrow> None | Some True \<Rightarrow> Some ''yes'' | Some False \<Rightarrow> Some ''no'')"

definition sample_bigiq :: discovery_world where
  "sample_bigiq = \<lparr>
     machine = \<lparr>code = 200, contents = [],
       properties = Some
         [(''cm-adccore-allbigipDevices'',
             \<lparr>discovered = True, imported = True, access_group = None\<rparr>),
          (''cm-access-allBigIpDevices'',
             \<lparr>discovered = True, imported = True, access_group = Some ''group1''\<rparr>)]\<rparr>,
     flatten_boolean = sample_flatten,
     valid_ip = (\<lambda>a. a = ''10.1.1.1''),
     discovery_check_mode = False,
     discover_on_device =
       (Inr (), [GET ''/mgmt/cm/global/tasks/device-discovery'',
                 POST ''/mgmt/cm/global/tasks/device-discovery'',
                 GET ''/mgmt/cm/global/tasks/device-discovery/1'']),
     import_modules_on_device =
       (Inr (), [GET ''/mgmt/cm/global/tasks/device-import'',
                 POST ''/mgmt/cm/global/tasks/device-import'',
                 GET ''/mgmt/cm/global/tasks/device-import/2'']),
     enable_stats_on_device =
       (Inr (), [POST ''/mgmt/cm/shared/stats-mgmt/agent-install-and-config-task'',
                 GET ''/mgmt/cm/shared/stats-mgmt/agent-install-and-config-task/3''])\<rparr>"


section \<open>Properties of bigip_command\<close>

subsection \<open>Responses that suppress the change report\<close>

lemma startswith_append: "startswith (p @ s) p"
  by (simp add: startswith_def)

lemma contains_append: "contains sub (a @ sub @ b)"
proof (induction a)
  case Nil
  have "startswith (sub @ b) sub" by (rule startswith_append)
  then show ?case by (cases "sub @ b") auto
next
  case (Cons x a)
  then show ?case by simp
qed

lemma takeWhile_line:
  assumes "newline \<notin> set m"
  shows "takeWhile (\<lambda>c. c \<noteq> newline) (m @ r) = m @ takeWhile (\<lambda>c. c \<noteq> newline) r"
  using assms by (induction m) auto

lemma match_here_shape:
  assumes "newline \<notin> set m" "newline \<notin> set suf"
  shows "match_here pre suf (pre @ m @ suf @ b)"
proof -
  have "takeWhile (\<lambda>c. c \<noteq> newline) (m @ suf @ b) = m @ suf @ takeWhile (\<lambda>c. c \<noteq> newline) b"
    using assms by (simp add: takeWhile_line)
  then show ?thesis
    by (simp add: match_here_def startswith_append contains_append)
qed

lemma re_search_shape:
  assumes "newline \<notin> set m" "newline \<notin> set suf"
  shows "re_search pre suf (a @ pre @ m @ suf @ b)"
proof (induction a)
  case Nil
  have "match_here pre suf (pre @ m @ suf @ b)" using assms by (rule match_here_shape)
  then show ?case by (cases "pre @ m @ suf @ b") auto
next
  case (Cons x a)
  then show ?case by simp
qed

text \<open>
  Claim C2, as the code has it: when some response contains \<^verbatim>\<open>The requested\<close> or
  \<^verbatim>\<open>Data Input Error: shared\<close> followed on the same line by \<^verbatim>\<open>already exists\<close>,
  \<open>determine_change\<close> returns false, whatever commands were dispatched (change-class
  ones included).
\<close>

theorem determine_change_already_exists:
  assumes "r \<in> set responses"
    and "r = a @ pre @ m @ ''already exists'' @ b"
    and "pre = ''The requested'' \<or> pre = ''Data Input Error: shared''"
    and "newline \<notin> set m"
  shows "determine_change responses normalized_commands = False"
proof -
  have "newline \<notin> set ''already exists''" by (simp add: newline_def)
  with assms(4) have "re_search pre ''already exists'' r"
    unfolding assms(2) by (rule re_search_shape)
  with assms(3) have "\<exists>(p, s) \<in> set stdout_re. re_search p s r"
    by (auto simp: stdout_re_def)
  with assms(1) have "find_no_change responses"
    unfolding find_no_change_def by blast
  then show ?thesis by (simp add: determine_change_def)
qed

theorem determine_change_already_exists_witness:
  "determine_change
     [''01020066:3: The requested Pool (/Common/p1) already exists in partition Common.'']
     [''create ltm pool p1''] = False"
proof -
  let ?r = "''01020066:3: The requested Pool (/Common/p1) already exists in partition Common.''"
  have 1: "?r \<in> set [?r]" by simp
  have 2: "?r = ''01020066:3: '' @ ''The requested'' @ '' Pool (/Common/p1) ''
             @ ''already exists'' @ '' in partition Common.''" by simp
  have 3: "''The requested'' = ''The requested'' \<or> ''The requested'' = ''Data Input Error: shared''"
    by simp
  have 4: "newline \<notin> set '' Pool (/Common/p1) ''" by (simp add: newline_def)
  show ?thesis by (rule determine_change_already_exists [OF 1 2 3 4])
qed

text \<open>
  The substring \<^verbatim>\<open>already exists\<close> alone does not suppress the report: a response
  that contains it without one of the two openings leaves a \<^verbatim>\<open>create\<close> command
  reported as a change.
\<close>

theorem determine_change_counterexample:
  "contains ''already exists'' ''Pool p1 already exists''
   \<and> determine_change [''Pool p1 already exists''] [''create ltm pool p1''] = True"
  by (simp add: determine_change_def find_no_change_def stdout_re_def match_here_def
      startswith_def startswith_any_def changed_command_prefixes_def newline_def)

subsection \<open>Normalizing twice\<close>

lemma dropWhile_rev_strip:
  assumes "u = [] \<or> \<not> P (hd u)"
  shows "dropWhile P (rev (dropWhile P (rev u))) = rev (dropWhile P (rev u))"
proof (cases "dropWhile P (rev u) = []")
  case True
  show ?thesis unfolding True by simp
next
  case False
  then have ne: "u \<noteq> []" by auto
  have "rev (takeWhile P (rev u) @ dropWhile P (rev u)) = rev (rev u)"
    by (simp only: takeWhile_dropWhile_id)
  then have u: "u = rev (dropWhile P (rev u)) @ rev (takeWhile P (rev u))"
    by (simp only: rev_append rev_rev_ident)
  have "hd (rev (dropWhile P (rev u)) @ rev (takeWhile P (rev u))) = hd (rev (dropWhile P (rev u)))"
    using False by simp
  with u have "hd (rev (dropWhile P (rev u))) = hd u" by simp
  with assms ne have "\<not> P (hd (rev (dropWhile P (rev u))))" by simp
  with False show ?thesis by (simp add: dropWhile_eq_self_iff)
qed

lemma py_strip_idem: "py_strip (py_strip s) = py_strip s"
proof -
  let ?u = "dropWhile py_isspace s"
  have "?u = [] \<or> \<not> py_isspace (hd ?u)"
    using hd_dropWhile [of py_isspace s] by blast
  then have "dropWhile py_isspace (rev (dropWhile py_isspace (rev ?u)))
             = rev (dropWhile py_isspace (rev ?u))"
    by (rule dropWhile_rev_strip)
  then show ?thesis by (simp add: py_strip_def dropWhile_idem)
qed

lemma py_strip_normalize_command: "py_strip (normalize_command c) = normalize_command c"
  by (simp add: normalize_command_def Let_def py_strip_idem)

lemma length_py_strip: "length (py_strip s) \<le> length s"
proof -
  have "length (dropWhile py_isspace (rev (dropWhile py_isspace s)))
        \<le> length (rev (dropWhile py_isspace s))" by (rule length_dropWhile_le)
  also have "\<dots> \<le> length s" by (simp add: length_dropWhile_le)
  finally show ?thesis by (simp add: py_strip_def)
qed

text \<open>One more pass changes a command exactly when the first pass left a \<^verbatim>\<open>tmsh\<close> prefix.\<close>

lemma normalize_command_idem_iff:
  "normalize_command (normalize_command c) = normalize_command c
   \<longleftrightarrow> take 5 (normalize_command c) \<noteq> ''tmsh ''"
proof
  assume "take 5 (normalize_command c) \<noteq> ''tmsh ''"
  then show "normalize_command (normalize_command c) = normalize_command c"
    by (subst normalize_command_def) (simp add: Let_def py_strip_normalize_command)
next
  assume idem: "normalize_command (normalize_command c) = normalize_command c"
  show "take 5 (normalize_command c) \<noteq> ''tmsh ''"
  proof
    let ?r = "normalize_command c"
    assume t: "take 5 ?r = ''tmsh ''"
    have "length (take 5 ?r) = 5" unfolding t by simp
    then have len: "5 \<le> length ?r" by simp
    have "normalize_command ?r = py_strip (drop 4 ?r)"
      using t by (subst normalize_command_def) (simp add: Let_def py_strip_normalize_command)
    then have "length (normalize_command ?r) \<le> length ?r - 4"
      using length_py_strip [of "drop 4 ?r"] by simp
    with len idem show False by simp
  qed
qed

lemma chdir_idem: "chdir (chdir d) = chdir d"
  by (cases d) (simp_all add: chdir_def startswith_def)

lemma normalize_commands_Some:
  "normalize_commands (Some cmds) = (if cmds = [] then None else Some (map normalize_command cmds))"
  by (cases cmds) (simp_all add: normalize_commands_def)

text \<open>
  Claim C8, as the code has it: qualifying \<^verbatim>\<open>chdir\<close> twice is the same as once;
  normalizing a command list twice is the same as once exactly when no command still
  begins with \<^verbatim>\<open>tmsh\<close> and a space after the first pass, since each pass removes one
  such prefix.
\<close>

theorem normalize_idempotent:
  "chdir (chdir d) = chdir d
   \<and> normalize_commands (normalize_commands None) = normalize_commands None
   \<and> (normalize_commands (normalize_commands (Some cmds)) = normalize_commands (Some cmds)
        \<longleftrightarrow> (\<forall>c \<in> set cmds. take 5 (normalize_command c) \<noteq> ''tmsh ''))"
proof -
  have 1: "normalize_commands (normalize_commands None) = normalize_commands None"
    by (simp add: normalize_commands_def)
  have 2: "normalize_commands (normalize_commands (Some cmds)) = normalize_commands (Some cmds)
        \<longleftrightarrow> (\<forall>c \<in> set cmds. take 5 (normalize_command c) \<noteq> ''tmsh '')"
  proof (cases "cmds = []")
    case True
    then show ?thesis by (simp add: normalize_commands_def)
  next
    case False
    then have "normalize_commands (normalize_commands (Some cmds))
               = Some (map (\<lambda>c. normalize_command (normalize_command c)) cmds)"
      by (simp add: normalize_commands_Some comp_def)
    moreover have "normalize_commands (Some cmds) = Some (map normalize_command cmds)"
      using False by (simp add: normalize_commands_Some)
    ultimately show ?thesis
      by (simp add: normalize_command_idem_iff)
  qed
  from chdir_idem 1 2 show ?thesis by blast
qed

theorem normalize_idempotent_witness:
  "take 5 (normalize_command ''tmsh list ltm virtual '') \<noteq> ''tmsh ''
   \<and> take 5 (normalize_command '' show sys version'') \<noteq> ''tmsh ''
   \<and> normalize_commands (normalize_commands (Some [''tmsh list ltm virtual '', '' show sys version'']))
       = Some [''list ltm virtual'', ''show sys version'']
   \<and> chdir (chdir (Some ''Common'')) = Some ''/Common''"
proof -
  let ?cmds = "[''tmsh list ltm virtual '', '' show sys version'']"
  have n: "normalize_commands (Some ?cmds) = Some [''list ltm virtual'', ''show sys version'']"
    by (simp add: normalize_commands_def normalize_command_def py_strip_def py_isspace_def)
  have c: "chdir (Some ''Common'') = Some ''/Common''"
    by (simp add: chdir_def startswith_def)
  have h1: "take 5 (normalize_command ''tmsh list ltm virtual '') \<noteq> ''tmsh ''"
    by (simp add: normalize_command_def py_strip_def py_isspace_def)
  have h2: "take 5 (normalize_command '' show sys version'') \<noteq> ''tmsh ''"
    by (simp add: normalize_command_def py_strip_def py_isspace_def)
  from h1 h2 have h: "\<forall>c \<in> set ?cmds. take 5 (normalize_command c) \<noteq> ''tmsh ''"
    by simp
  from normalize_idempotent [of "Some ''Common''" ?cmds] h
  have "normalize_commands (normalize_commands (Some ?cmds)) = normalize_commands (Some ?cmds)"
    and "chdir (chdir (Some ''Common'')) = chdir (Some ''Common'')" by blast+
  with n c h1 h2 show ?thesis by simp
qed

text \<open>A doubled prefix: the first pass leaves \<^verbatim>\<open>tmsh list\<close>, the second \<^verbatim>\<open>list\<close>.\<close>

theorem normalize_commands_counterexample:
  "normalize_commands (Some [''tmsh tmsh list'']) = Some [''tmsh list'']
   \<and> normalize_commands (normalize_commands (Some [''tmsh tmsh list''])) = Some [''list'']"
  by (simp add: normalize_commands_def normalize_command_def py_strip_def py_isspace_def)

subsection \<open>Splitting at the pipe and joining again\<close>






subsection \<open>The double-quote check\<close>

lemma count_dropWhile:
  assumes "\<not> P x"
  shows "count_list (dropWhile P s) x = count_list s x"
  using assms by (induction s) auto

lemma count_py_strip: "count_list (py_strip s) dquote = count_list s dquote"
proof -
  have "\<not> py_isspace dquote" by (simp add: py_isspace_def dquote_def)
  then show ?thesis by (simp add: py_strip_def count_dropWhile)
qed

lemma count_re_sub_escape: "count_list (re_sub_escape n s) dquote = count_list s dquote"
proof (induction s)
  case Nil
  show ?case by (simp add: re_sub_escape_def)
next
  case (Cons c s)
  have "count_list (replicate n backslash) dquote = 0"
    by (simp add: backslash_def dquote_def)
  with Cons show ?case by (simp add: re_sub_escape_def dquote_def)
qed

text \<open>
  Claim C6, as the code has it: \<^verbatim>\<open>addon_tmsh\<close> and \<^verbatim>\<open>addon_tmsh_cli\<close> raise exactly
  when the primary part of the command (\<^verbatim>\<open>command['command']\<close>: the text before the
  pipe, with the \<^verbatim>\<open>cd\<close> prefix if any) holds an odd number of double quotes, and
  succeed exactly when that number is even. The pipeline part is not looked at: after a
  successful check the finished command holds two double quotes more than both parts
  together.
\<close>

theorem addon_tmsh_unbalanced:
  "(addon_tmsh c = Inl unbalanced \<longleftrightarrow> odd (count_list (command c) dquote))
   \<and> (addon_tmsh_cli c = Inl unbalanced \<longleftrightarrow> odd (count_list (command c) dquote))
   \<and> ((\<exists>c'. addon_tmsh c = Inr c') \<longleftrightarrow> even (count_list (command c) dquote))
   \<and> ((\<exists>c'. addon_tmsh_cli c = Inr c') \<longleftrightarrow> even (count_list (command c) dquote))
   \<and> (\<forall>c'. addon_tmsh c = Inr c' \<longrightarrow>
          count_list (command (merge_command_dict c')) dquote
            = 2 + count_list (command c) dquote + count_list (pipeline c) dquote)
   \<and> (\<forall>c'. addon_tmsh_cli c = Inr c' \<longrightarrow>
          count_list (command (merge_command_dict_cli c')) dquote
            = 2 + count_list (command c) dquote + count_list (pipeline c) dquote)"
proof -
  have 1: "addon_tmsh c = Inl unbalanced \<longleftrightarrow> odd (count_list (command c) dquote)"
    by (simp add: addon_tmsh_def odd_iff_mod_2_eq_one)
  have 2: "addon_tmsh_cli c = Inl unbalanced \<longleftrightarrow> odd (count_list (command c) dquote)"
    by (simp add: addon_tmsh_cli_def odd_iff_mod_2_eq_one)
  have 3: "(\<exists>c'. addon_tmsh c = Inr c') \<longleftrightarrow> even (count_list (command c) dquote)"
    by (auto simp: addon_tmsh_def even_iff_mod_2_eq_zero)
  have 4: "(\<exists>c'. addon_tmsh_cli c = Inr c') \<longleftrightarrow> even (count_list (command c) dquote)"
    by (auto simp: addon_tmsh_cli_def even_iff_mod_2_eq_zero)
  have 5: "count_list (command (merge_command_dict c')) dquote
            = 2 + count_list (command c) dquote + count_list (pipeline c) dquote"
    if "addon_tmsh c = Inr c'" for c'
  proof -
    from that have c': "c' = c\<lparr>command := ''tmsh -c '' @ [backslash, dquote]
                               @ re_sub_escape 3 (command c) @ [backslash, dquote]\<rparr>"
      by (simp add: addon_tmsh_def split: if_splits)
    show ?thesis
      unfolding c'
      by (simp add: merge_command_dict_def Let_def count_py_strip [unfolded dquote_def]
          count_re_sub_escape [unfolded dquote_def] dquote_def backslash_def)
  qed
  have 6: "count_list (command (merge_command_dict_cli c')) dquote
            = 2 + count_list (command c) dquote + count_list (pipeline c) dquote"
    if "addon_tmsh_cli c = Inr c'" for c'
  proof -
    from that have c': "c' = c\<lparr>command := ''tmsh -c '' @ [dquote] @ command c @ [dquote]\<rparr>"
      by (simp add: addon_tmsh_cli_def split: if_splits)
    show ?thesis
      unfolding c'
      by (simp add: merge_command_dict_cli_def count_py_strip [unfolded dquote_def] dquote_def)
  qed
  from 1 2 3 4 5 6 show ?thesis by blast
qed

theorem addon_tmsh_unbalanced_witness:
  "addon_tmsh_cli \<lparr>command = ''list '', pipeline = '' grep '' @ [backslash, dquote] @ ''x''\<rparr>
     = Inr \<lparr>command = ''tmsh -c '' @ [dquote] @ ''list '' @ [dquote],
            pipeline = '' grep '' @ [backslash, dquote] @ ''x''\<rparr>
   \<and> count_list (command (merge_command_dict_cli
         \<lparr>command = ''tmsh -c '' @ [dquote] @ ''list '' @ [dquote],
          pipeline = '' grep '' @ [backslash, dquote] @ ''x''\<rparr>)) dquote = 3
   \<and> addon_tmsh \<lparr>command = ''list '', pipeline = '' grep '' @ [backslash, dquote] @ ''x''\<rparr>
     = Inr \<lparr>command = ''tmsh -c '' @ [backslash, dquote] @ ''list '' @ [backslash, dquote],
            pipeline = '' grep '' @ [backslash, dquote] @ ''x''\<rparr>
   \<and> count_list (command (merge_command_dict
         \<lparr>command = ''tmsh -c '' @ [backslash, dquote] @ ''list '' @ [backslash, dquote],
          pipeline = '' grep '' @ [backslash, dquote] @ ''x''\<rparr>)) dquote = 3"
proof -
  let ?c = "\<lparr>command = ''list '', pipeline = '' grep '' @ [backslash, dquote] @ ''x''\<rparr>"
  have a: "addon_tmsh_cli ?c = Inr \<lparr>command = ''tmsh -c '' @ [dquote] @ ''list '' @ [dquote],
            pipeline = '' grep '' @ [backslash, dquote] @ ''x''\<rparr>"
    by (simp add: addon_tmsh_cli_def dquote_def)
  have b: "addon_tmsh ?c
           = Inr \<lparr>command = ''tmsh -c '' @ [backslash, dquote] @ ''list '' @ [backslash, dquote],
                  pipeline = '' grep '' @ [backslash, dquote] @ ''x''\<rparr>"
    by (simp add: addon_tmsh_def re_sub_escape_def dquote_def)
  have n: "2 + count_list (command ?c) dquote + count_list (pipeline ?c) dquote = 3"
    by (simp add: dquote_def backslash_def)
  from addon_tmsh_unbalanced [of ?c] a b n show ?thesis by simp
qed

text \<open>
  A command whose pipeline part holds an escaped double quote: both transports prepare
  it without raising, and the prepared command holds three double quotes.
\<close>

theorem prepared_command_counterexample:
  "cli_commands None False [''list | grep '' @ [backslash, dquote] @ ''x'']
     = Inr [''tmsh -c '' @ [dquote] @ ''list '' @ [dquote] @ '' |  grep '' @ [backslash, dquote] @ ''x'']
   \<and> rest_commands None [''list | grep '' @ [backslash, dquote] @ ''x'']
     = Inr [''tmsh -c '' @ [backslash, dquote] @ ''list '' @ [backslash, dquote]
            @ '' |  grep '' @ [backslash, backslash, dquote] @ ''x'']
   \<and> count_list (''tmsh -c '' @ [dquote] @ ''list '' @ [dquote] @ '' |  grep ''
                   @ [backslash, dquote] @ ''x'') dquote = 3
   \<and> count_list (''tmsh -c '' @ [backslash, dquote] @ ''list '' @ [backslash, dquote]
                   @ '' |  grep '' @ [backslash, backslash, dquote] @ ''x'') dquote = 3"
proof -
  have t: "shlex_tokens (''list | grep '' @ [backslash, dquote] @ ''x'')
           = Inr [''list '', '' grep '' @ [dquote] @ ''x'']"
    by (simp add: shlex_tokens_def emit_def backslash_def squote_def dquote_def)
  have cc: "convert_command_cli (''list | grep '' @ [backslash, dquote] @ ''x'')
           = Inr \<lparr>command = ''list '', pipeline = '' grep '' @ [backslash, dquote] @ ''x''\<rparr>"
    using t by (simp add: convert_command_cli_def cmd_has_pipe_def
        py_split1_def fill_cmd_def backslash_def dquote_def)
  have c: "convert_commands_cli [''list | grep '' @ [backslash, dquote] @ ''x'']
           = Inr [\<lparr>command = ''list '', pipeline = '' grep '' @ [backslash, dquote] @ ''x''\<rparr>]"
    using cc by (simp add: convert_commands_cli_def)
  have e: "escape_squotes (''list | grep '' @ [backslash, dquote] @ ''x'')
           = ''list | grep '' @ [backslash, dquote] @ ''x''"
    by (simp add: escape_squotes_def squote_def backslash_def dquote_def)
  have c': "convert_commands [''list | grep '' @ [backslash, dquote] @ ''x'']
           = Inr [\<lparr>command = ''list '', pipeline = '' grep '' @ [backslash, dquote] @ ''x''\<rparr>]"
    using cc e by (simp add: convert_commands_def convert_command_def)
  have 1: "cli_commands None False [''list | grep '' @ [backslash, dquote] @ ''x'']
     = Inr [''tmsh -c '' @ [dquote] @ ''list '' @ [dquote] @ '' |  grep '' @ [backslash, dquote] @ ''x'']"
    using c by (simp add: cli_commands_def apply_chdir_def chdir_def addon_tmsh_cli_def
        merge_command_dict_cli_def py_strip_def py_isspace_def dquote_def backslash_def)
  have 2: "rest_commands None [''list | grep '' @ [backslash, dquote] @ ''x'']
     = Inr [''tmsh -c '' @ [backslash, dquote] @ ''list '' @ [backslash, dquote]
            @ '' |  grep '' @ [backslash, backslash, dquote] @ ''x'']"
    using c' by (simp add: rest_commands_def apply_chdir_def chdir_def addon_tmsh_def
        merge_command_dict_def re_sub_escape_def Let_def py_strip_def py_isspace_def
        dquote_def backslash_def)
  have 3: "count_list (''tmsh -c '' @ [dquote] @ ''list '' @ [dquote] @ '' |  grep ''
                   @ [backslash, dquote] @ ''x'') dquote = 3"
    by (simp add: dquote_def backslash_def)
  have 4: "count_list (''tmsh -c '' @ [backslash, dquote] @ ''list '' @ [backslash, dquote]
                   @ '' |  grep '' @ [backslash, backslash, dquote] @ ''x'') dquote = 3"
    by (simp add: dquote_def backslash_def)
  from 1 2 3 4 show ?thesis by blast
qed

section \<open>Properties of bigip_vcmp_guest\<close>

subsection \<open>The default comparison and the unchanged guest\<close>

lemma collect_changes_all_None:
  assumes "\<forall>k \<in> set ks. compare E want have k = Inr None"
  shows "collect_changes E want have ks = Inr []"
  using assms by (induction ks) simp_all

lemma collect_changes_lookup:
  assumes "collect_changes E want have ks = Inr changed" and "distinct ks" and "k \<in> set ks"
  shows "compare E want have k = Inr (map_of changed k)"
  using assms
proof (induction ks arbitrary: changed)
  case Nil
  then show ?case by simp
next
  case (Cons a ks)
  from Cons.prems(1) obtain c rest where
    c: "compare E want have a = Inr c" and rest: "collect_changes E want have ks = Inr rest"
    and changed: "changed = (case c of None \<Rightarrow> rest | Some v \<Rightarrow> (a, v) # rest)"
    by (auto split: sum.splits option.splits)
  have keys: "fst ` set rest \<subseteq> set ks" if "collect_changes E want have ks = Inr rest" for ks rest
    using that
  proof (induction ks arbitrary: rest)
    case Nil
    then show ?case by simp
  next
    case (Cons b ks)
    then show ?case by (fastforce split: sum.splits option.splits)
  qed
  show ?case
  proof (cases "k = a")
    case True
    from keys [OF rest] Cons.prems(2) have "a \<notin> fst ` set rest" by auto
    then have "map_of rest a = None" by (simp add: map_of_eq_None_iff)
    with True c changed show ?thesis by (cases c) simp_all
  next
    case False
    with Cons.prems have "k \<in> set ks" "distinct ks" by auto
    with Cons.IH [OF rest] have "compare E want have k = Inr (map_of rest k)" by simp
    with False changed show ?thesis by (cases c) simp_all
  qed
qed

lemma distinct_updatables: "distinct updatables"
  by (simp add: updatables_def)

lemma compare_default:
  assumes "k \<noteq> ''mgmt_address''" and "k \<noteq> ''allowed_slots''"
  shows "compare E want have k = default_compare E want have k"
  using assms by (simp add: compare_def)


lemma map_option_VStr_eq: "map_option VStr a = map_option VStr b \<longleftrightarrow> a = b"
  by (cases a; cases b) auto

lemma map_option_VList_eq: "map_option VList a = map_option VList b \<longleftrightarrow> a = b"
  by (cases a; cases b) auto

lemma compare_mgmt_address_same:
  assumes w: "want_attr E want ''mgmt_address'' = Inr w"
    and same: "w = None \<or> w = have_attr have ''mgmt_address''"
    and subnet: "v_mgmt_address want = None \<or> (\<exists>ip subnet. mgmt_tuple want = Inr (ip, Some subnet))"
  shows "compare E want have ''mgmt_address'' = Inr None"
proof -
  from w obtain a where a: "mgmt_address E want = Inr a" and wa: "w = map_option VStr a"
    by (auto simp: want_attr_def lift_attr_def split: sum.splits)
  have h: "have_attr have ''mgmt_address'' = map_option VStr (v_mgmt_address have)"
    by (simp add: have_attr_def)
  from same wa h have a_same: "a = None \<or> a = v_mgmt_address have"
    by (auto simp: map_option_VStr_eq)
  from subnet show ?thesis
  proof
    assume n: "v_mgmt_address want = None"
    then have "mgmt_tuple want = Inl AttributeError" by (simp add: mgmt_tuple_def)
    then have "compare E want have ''mgmt_address'' = default_compare E want have ''mgmt_address''"
      by (simp add: compare_def diff_mgmt_address_def)
    moreover from n a have "a = None" by (simp add: mgmt_address_def)
    ultimately show ?thesis using w wa by (simp add: default_compare_def)
  next
    assume "\<exists>ip subnet. mgmt_tuple want = Inr (ip, Some subnet)"
    then obtain ip subnet where t: "mgmt_tuple want = Inr (ip, Some subnet)" by blast
    with a a_same have "diff_mgmt_address E want have = Inr None"
      by (auto simp: diff_mgmt_address_def)
    then show ?thesis by (simp add: compare_def)
  qed
qed

lemma compare_allowed_slots_same:
  assumes w: "want_attr E want ''allowed_slots'' = Inr w"
    and same: "w = None \<or> w = have_attr have ''allowed_slots''"
  shows "compare E want have ''allowed_slots'' = Inr None"
proof -
  from w have wa: "w = map_option VList (allowed_slots want)"
    by (simp add: want_attr_def)
  have h: "have_attr have ''allowed_slots'' = map_option VList (v_allowed_slots have)"
    by (simp add: have_attr_def)
  from same wa h have "allowed_slots want = None \<or> allowed_slots want = v_allowed_slots have"
    by (auto simp: map_option_VList_eq)
  then have "diff_allowed_slots want have = Inr None"
    by (auto simp: diff_allowed_slots_def split: option.splits)
  then show ?thesis by (simp add: compare_def)
qed

lemma compare_same:
  assumes "want_attr E want k = Inr w" and "w = None \<or> w = have_attr have k"
    and "v_mgmt_address want = None \<or> (\<exists>ip subnet. mgmt_tuple want = Inr (ip, Some subnet))"
  shows "compare E want have k = Inr None"
proof (cases "k = ''mgmt_address''")
  case True
  with assms show ?thesis using compare_mgmt_address_same by blast
next
  case False
  show ?thesis
  proof (cases "k = ''allowed_slots''")
    case True
    with assms show ?thesis using compare_allowed_slots_same by blast
  next
    case False
    with \<open>k \<noteq> ''mgmt_address''\<close> have "compare E want have k = default_compare E want have k"
      by (rule compare_default)
    with assms(1,2) show ?thesis by (auto simp: default_compare_def)
  qed
qed

lemma no_difference:
  assumes "\<forall>k \<in> set updatables. \<exists>w. want_attr E want k = Inr w \<and> (w = None \<or> w = have_attr have k)"
    and "v_mgmt_address want = None \<or> (\<exists>ip subnet. mgmt_tuple want = Inr (ip, Some subnet))"
  shows "update_changed_options E want have = Inr ([], False)"
proof -
  have "\<forall>k \<in> set updatables. compare E want have k = Inr None"
    using assms compare_same by blast
  then have "collect_changes E want have updatables = Inr []"
    by (rule collect_changes_all_None)
  then show ?thesis by (simp add: update_changed_options_def)
qed

lemma default_rule_field:
  assumes "k \<in> set updatables" and "k \<noteq> ''mgmt_address''" and "k \<noteq> ''allowed_slots''"
    and "update_changed_options E want have = Inr (changed, result)"
  shows "\<exists>w. want_attr E want k = Inr w
            \<and> map_of changed k = (if w \<noteq> have_attr have k then w else None)
            \<and> (k \<in> fst ` set changed \<longleftrightarrow> w \<noteq> None \<and> w \<noteq> have_attr have k)"
proof -
  from assms(4) have c: "collect_changes E want have updatables = Inr changed"
    by (auto simp: update_changed_options_def split: sum.splits if_splits)
  from collect_changes_lookup [OF c distinct_updatables assms(1)]
  have "default_compare E want have k = Inr (map_of changed k)"
    using compare_default [OF assms(2,3)] by simp
  then obtain w where w: "want_attr E want k = Inr w"
    and m: "map_of changed k = (if w \<noteq> have_attr have k then w else None)"
    by (auto simp: default_compare_def split: sum.splits if_splits)
  have "k \<in> fst ` set changed \<longleftrightarrow> map_of changed k \<noteq> None"
    by (simp add: map_of_eq_None_iff)
  with w m show ?thesis by auto
qed



text \<open>
  Claim C1, as the code has it. For an updatable field without a property in
  \<^verbatim>\<open>Difference\<close>, whenever \<^verbatim>\<open>_update_changed_options\<close> yields a change set, the field
  is in it iff the desired value is not \<^verbatim>\<open>None\<close> and differs from the observed one,
  and it then carries the desired value. When no updatable field differs (each desired
  value is \<^verbatim>\<open>None\<close> or equal to the observed one), and the desired management address
  is absent or written with its subnet, the change set is empty,
  \<^verbatim>\<open>_update_changed_options\<close> returns false, \<^verbatim>\<open>update\<close> returns false and the module
  reports \<^verbatim>\<open>changed = false\<close>.
\<close>

theorem default_rule_and_unchanged:
  "(k \<in> set updatables \<and> k \<noteq> ''mgmt_address'' \<and> k \<noteq> ''allowed_slots''
      \<and> update_changed_options E want have = Inr (changed, result)
     \<longrightarrow> (\<exists>w. want_attr E want k = Inr w
            \<and> map_of changed k = (if w \<noteq> have_attr have k then w else None)
            \<and> (k \<in> fst ` set changed \<longleftrightarrow> w \<noteq> None \<and> w \<noteq> have_attr have k)))
   \<and> ((\<forall>k \<in> set updatables. \<exists>w. want_attr E want k = Inr w \<and> (w = None \<or> w = have_attr have k))
      \<and> (v_mgmt_address want = None \<or> (\<exists>ip subnet. mgmt_tuple want = Inr (ip, Some subnet)))
     \<longrightarrow> update_changed_options E want have = Inr ([], False)
        \<and> (read_current_from_device response = Inr have
            \<longrightarrow> update E want response check_mode on_device = Inr False
              \<and> (exists ex = Inr True
                  \<and> state want \<in> set [Some ''configured'', Some ''provisioned'', Some ''deployed'']
                  \<longrightarrow> exec_module E want ex response check_mode on_device created removed
                       = Inr False)))"
proof -
  have A: "\<exists>w. want_attr E want k = Inr w
            \<and> map_of changed k = (if w \<noteq> have_attr have k then w else None)
            \<and> (k \<in> fst ` set changed \<longleftrightarrow> w \<noteq> None \<and> w \<noteq> have_attr have k)"
    if "k \<in> set updatables \<and> k \<noteq> ''mgmt_address'' \<and> k \<noteq> ''allowed_slots''
      \<and> update_changed_options E want have = Inr (changed, result)"
  proof -
    from that have 1: "k \<in> set updatables" and 2: "k \<noteq> ''mgmt_address''"
      and 3: "k \<noteq> ''allowed_slots''"
      and 4: "update_changed_options E want have = Inr (changed, result)" by simp_all
    show ?thesis by (rule default_rule_field [OF 1 2 3 4])
  qed
  have B: "update_changed_options E want have = Inr ([], False)
        \<and> (read_current_from_device response = Inr have
            \<longrightarrow> update E want response check_mode on_device = Inr False
              \<and> (exists ex = Inr True
                  \<and> state want \<in> set [Some ''configured'', Some ''provisioned'', Some ''deployed'']
                  \<longrightarrow> exec_module E want ex response check_mode on_device created removed
                       = Inr False))"
    if h: "(\<forall>k \<in> set updatables. \<exists>w. want_attr E want k = Inr w \<and> (w = None \<or> w = have_attr have k))
      \<and> (v_mgmt_address want = None \<or> (\<exists>ip subnet. mgmt_tuple want = Inr (ip, Some subnet)))"
  proof -
    from h have h1: "\<forall>k \<in> set updatables. \<exists>w. want_attr E want k = Inr w
                       \<and> (w = None \<or> w = have_attr have k)"
      and h2: "v_mgmt_address want = None \<or> (\<exists>ip subnet. mgmt_tuple want = Inr (ip, Some subnet))"
      by (rule conjunct1, rule conjunct2)
    have u: "update_changed_options E want have = Inr ([], False)"
      by (rule no_difference [OF h1 h2])
    have up: "update E want response check_mode on_device = Inr False"
      if "read_current_from_device response = Inr have"
      using that u by (simp add: update_def should_update_def)
    have ex: "exec_module E want ex response check_mode on_device created removed = Inr False"
      if "read_current_from_device response = Inr have"
        and "exists ex = Inr True
             \<and> state want \<in> set [Some ''configured'', Some ''provisioned'', Some ''deployed'']"
    proof -
      from that(2) have e: "exists ex = Inr True"
        and s: "state want \<in> set [Some ''configured'', Some ''provisioned'', Some ''deployed'']"
        by (rule conjunct1, rule conjunct2)
      have "exec_module E want ex response check_mode on_device created removed
            = present E want ex response check_mode on_device created"
        unfolding exec_module_def using s by (rule if_P)
      also have "\<dots> = update E want response check_mode on_device"
        by (simp add: present_def e)
      finally show ?thesis using up [OF that(1)] by simp
    qed
    from u up ex show ?thesis by blast
  qed
  from A B show ?thesis by blast
qed


lemma compare_unfold:
  "compare E w h k =
     (if k = ''mgmt_address'' then
        (if diff_mgmt_address E w h = Inl AttributeError then default_compare E w h k
         else diff_mgmt_address E w h)
      else if k = ''allowed_slots'' then
        (if diff_allowed_slots w h = Inl AttributeError then default_compare E w h k
         else diff_allowed_slots w h)
      else default_compare E w h k)"
  by (simp add: compare_def Let_def)

lemmas eval_guest = updatables_def default_compare_def want_attr_def have_attr_def
  mgmt_address_def mgmt_route_def initial_image_def initial_hotfix_def state_def vlans_def
  allowed_slots_def lift_attr_def no_values_def sample_env_def

text \<open>
  A desired management address written without a subnet: normalized it equals the
  observed one and no other field differs, yet the comparison of \<^verbatim>\<open>mgmt_address\<close>
  raises before it looks at the observed value, so \<^verbatim>\<open>_update_changed_options\<close> does not
  return.
\<close>

theorem unchanged_counterexample:
  "map (want_attr sample_env
          (no_values\<lparr>v_mgmt_address := Some ''10.0.0.5'', v_state := Some ''present''\<rparr>)) updatables
     = [Inr None, Inr None, Inr (Some (VStr ''10.0.0.5/32'')), Inr None, Inr None, Inr None,
        Inr (Some (VStr ''deployed'')), Inr None, Inr None, Inr None, Inr None]
   \<and> map (have_attr
          (no_values\<lparr>v_mgmt_address := Some ''10.0.0.5/32'', v_state := Some ''deployed''\<rparr>)) updatables
     = [None, None, Some (VStr ''10.0.0.5/32''), None, None, None,
        Some (VStr ''deployed''), None, None, None, None]
   \<and> update_changed_options sample_env
        (no_values\<lparr>v_mgmt_address := Some ''10.0.0.5'', v_state := Some ''present''\<rparr>)
        (no_values\<lparr>v_mgmt_address := Some ''10.0.0.5/32'', v_state := Some ''deployed''\<rparr>)
     = Inl (F5ModuleError ''A subnet must be specified when changing the mgmt_address.'')"
proof -
  let ?w = "no_values\<lparr>v_mgmt_address := Some ''10.0.0.5'', v_state := Some ''present''\<rparr>"
  let ?h = "no_values\<lparr>v_mgmt_address := Some ''10.0.0.5/32'', v_state := Some ''deployed''\<rparr>"
  have 1: "map (want_attr sample_env ?w) updatables
     = [Inr None, Inr None, Inr (Some (VStr ''10.0.0.5/32'')), Inr None, Inr None, Inr None,
        Inr (Some (VStr ''deployed'')), Inr None, Inr None, Inr None, Inr None]"
    by (simp add: eval_guest)
  have 2: "map (have_attr ?h) updatables
     = [None, None, Some (VStr ''10.0.0.5/32''), None, None, None,
        Some (VStr ''deployed''), None, None, None, None]"
    by (simp add: eval_guest)
  have t: "mgmt_tuple ?w = Inr (''10.0.0.5'', None)"
    by (simp add: mgmt_tuple_def py_split_def no_values_def)
  have d: "diff_mgmt_address sample_env ?w ?h
           = Inl (F5ModuleError ''A subnet must be specified when changing the mgmt_address.'')"
    by (simp add: diff_mgmt_address_def t)
  have c1: "compare sample_env ?w ?h ''vlans'' = Inr None"
    by (simp add: compare_unfold eval_guest)
  have c2: "compare sample_env ?w ?h ''mgmt_network'' = Inr None"
    by (simp add: compare_unfold eval_guest)
  have c3: "compare sample_env ?w ?h ''mgmt_address''
            = Inl (F5ModuleError ''A subnet must be specified when changing the mgmt_address.'')"
    by (simp add: compare_unfold d)
  have "collect_changes sample_env ?w ?h updatables
        = Inl (F5ModuleError ''A subnet must be specified when changing the mgmt_address.'')"
    by (simp add: updatables_def c1 c2 c3)
  then have 3: "update_changed_options sample_env ?w ?h
        = Inl (F5ModuleError ''A subnet must be specified when changing the mgmt_address.'')"
    by (simp add: update_changed_options_def)
  from 1 2 3 show ?thesis by blast
qed


theorem default_rule_and_unchanged_witness:
  "update_changed_options sample_env
      (no_values\<lparr>v_mgmt_network := Some ''bridged'', v_state := Some ''present''\<rparr>)
      (no_values\<lparr>v_mgmt_network := Some ''isolated'', v_state := Some ''deployed''\<rparr>)
     = Inr ([(''mgmt_network'', VStr ''bridged'')], True)
   \<and> ''mgmt_network'' \<in> fst ` set [(''mgmt_network'', VStr ''bridged'')]
   \<and> update_changed_options sample_env
      (no_values\<lparr>v_mgmt_network := Some ''bridged'', v_mgmt_address := Some ''10.0.0.5/24'',
                  v_state := Some ''present''\<rparr>)
      (no_values\<lparr>v_mgmt_network := Some ''bridged'', v_mgmt_address := Some ''10.0.0.5/24'',
                  v_state := Some ''deployed''\<rparr>)
     = Inr ([], False)
   \<and> exec_module sample_env
      (no_values\<lparr>v_mgmt_network := Some ''bridged'', v_mgmt_address := Some ''10.0.0.5/24'',
                  v_state := Some ''present''\<rparr>)
      \<lparr>code = 200, contents = []\<rparr>
      \<lparr>code = 200, contents = [],
        guest = no_values\<lparr>v_mgmt_network := Some ''bridged'',
                  v_mgmt_address := Some ''10.0.0.5/24'', v_state := Some ''deployed''\<rparr>\<rparr>
      False (Inr ()) (Inr True) (Inr True)
     = Inr False"
proof -
  let ?wa = "no_values\<lparr>v_mgmt_network := Some ''bridged'', v_state := Some ''present''\<rparr>"
  let ?ha = "no_values\<lparr>v_mgmt_network := Some ''isolated'', v_state := Some ''deployed''\<rparr>"
  let ?wb = "no_values\<lparr>v_mgmt_network := Some ''bridged'', v_mgmt_address := Some ''10.0.0.5/24'',
                  v_state := Some ''present''\<rparr>"
  let ?hb = "no_values\<lparr>v_mgmt_network := Some ''bridged'', v_mgmt_address := Some ''10.0.0.5/24'',
                  v_state := Some ''deployed''\<rparr>"
  let ?resp = "\<lparr>code = 200, contents = [], guest = ?hb\<rparr>"
  let ?ex = "\<lparr>code = 200, contents = []\<rparr>"
  have dm: "diff_mgmt_address sample_env ?wa ?ha = Inl AttributeError"
    by (simp add: diff_mgmt_address_def mgmt_tuple_def no_values_def)
  have da: "diff_allowed_slots ?wa ?ha = Inr None"
    by (simp add: diff_allowed_slots_def allowed_slots_def no_values_def)
  have dc: "map (default_compare sample_env ?wa ?ha) updatables
            = [Inr None, Inr (Some (VStr ''bridged'')), Inr None, Inr None, Inr None, Inr None,
               Inr None, Inr None, Inr None, Inr None, Inr None]"
    by (simp add: eval_guest)
  have cs: "map (compare sample_env ?wa ?ha) updatables
            = [Inr None, Inr (Some (VStr ''bridged'')), Inr None, Inr None, Inr None, Inr None,
               Inr None, Inr None, Inr None, Inr None, Inr None]"
    using dm da dc by (simp add: updatables_def compare_unfold)
  have cc: "collect_changes sample_env ?wa ?ha updatables = Inr [(''mgmt_network'', VStr ''bridged'')]"
    using cs by (simp add: updatables_def)
  have ua: "update_changed_options sample_env ?wa ?ha
            = Inr ([(''mgmt_network'', VStr ''bridged'')], True)"
    by (simp add: update_changed_options_def cc)
  have a1: "''mgmt_network'' \<in> set updatables \<and> ''mgmt_network'' \<noteq> ''mgmt_address''
            \<and> ''mgmt_network'' \<noteq> ''allowed_slots''
            \<and> update_changed_options sample_env ?wa ?ha
                = Inr ([(''mgmt_network'', VStr ''bridged'')], True)"
    using ua by (simp add: updatables_def)
  have a2: "want_attr sample_env ?wa ''mgmt_network'' = Inr (Some (VStr ''bridged''))"
    by (simp add: want_attr_def no_values_def)
  have a3: "have_attr ?ha ''mgmt_network'' = Some (VStr ''isolated'')"
    by (simp add: have_attr_def no_values_def)
  have b1: "\<forall>k \<in> set updatables. \<exists>w. want_attr sample_env ?wb k = Inr w
              \<and> (w = None \<or> w = have_attr ?hb k)"
    by (simp add: eval_guest)
  have b2: "v_mgmt_address ?wb = None \<or> (\<exists>ip subnet. mgmt_tuple ?wb = Inr (ip, Some subnet))"
    by (simp add: mgmt_tuple_def py_split_def no_values_def)
  have b3: "read_current_from_device ?resp = Inr ?hb"
    by (simp add: read_current_from_device_def ok_code_def)
  have b4: "exists ?ex = Inr True
            \<and> state ?wb \<in> set [Some ''configured'', Some ''provisioned'', Some ''deployed'']"
    by (simp add: exists_def ok_code_def state_def no_values_def)
  note TA = default_rule_and_unchanged
    [of "''mgmt_network''" sample_env ?wa ?ha "[(''mgmt_network'', VStr ''bridged'')]" True,
     THEN conjunct1, THEN mp, OF a1]
  from TA a2 a3 have A: "''mgmt_network'' \<in> fst ` set [(''mgmt_network'', VStr ''bridged'')]"
    by simp
  note TB = default_rule_and_unchanged
    [of _ sample_env ?wb ?hb _ _ ?resp False "Inr ()" ?ex "Inr True" "Inr True",
     THEN conjunct2, THEN mp, OF conjI, OF b1 b2]
  note B1 = TB [THEN conjunct1]
  note B2 = TB [THEN conjunct2, THEN mp, OF b3, THEN conjunct2, THEN mp, OF b4]
  show ?thesis
    by (intro conjI) (rule ua, rule A, rule B1, rule B2)
qed

subsection \<open>The order of list-valued input\<close>















section \<open>Properties of bigip_ucs_fetch\<close>

subsection \<open>Waiting for the task\<close>

lemma rounds_Suc: "rounds uri d (Suc k) = GET uri # SLEEP d # rounds uri d k"
  by (simp add: rounds_def)

lemma rounds_0: "rounds uri d 0 = []"
  by (simp add: rounds_def)

lemma poll_pending_step:
  assumes "pending (task_results W x)"
  shows "poll W uri d (x # xs) = after [GET uri, SLEEP d] (poll W uri d xs)"
  using assms by (auto simp: pending_def Let_def split: option.splits)

lemma poll_completed_step:
  assumes "completed (task_results W x)"
  shows "poll W uri d (x # xs) = (Inr True, [GET uri])"
  using assms by (simp add: completed_def Let_def)

lemma poll_failed_step:
  assumes "failed (task_results W x)"
  shows "poll W uri d (x # xs) = (Inl task_failed, [GET uri])"
  using assms by (simp add: failed_def Let_def)

lemma poll_all_pending:
  assumes "\<forall>x \<in> set xs. pending (task_results W x)"
  shows "poll W uri d xs = (Inl timeout_reached, rounds uri d (length xs))"
  using assms
proof (induction xs)
  case Nil
  show ?case by (simp add: raise_def rounds_0)
next
  case (Cons x xs)
  then show ?case by (simp add: poll_pending_step after_def rounds_Suc del: poll.simps)
qed

lemma poll_prefix_pending:
  assumes "\<forall>x \<in> set xs. pending (task_results W x)"
  shows "poll W uri d (xs @ ys) = after (rounds uri d (length xs)) (poll W uri d ys)"
  using assms
proof (induction xs)
  case Nil
  show ?case by (simp add: after_def rounds_0)
next
  case (Cons x xs)
  then show ?case by (simp add: poll_pending_step after_def rounds_Suc del: poll.simps)
qed

text \<open>Every run of the loop: the number of polls, the sleeps, and when it times out.\<close>

lemma poll_shape:
  "polls uri (snd (poll W uri d xs)) \<le> length xs
   \<and> (\<forall>c \<in> set (snd (poll W uri d xs)). c = GET uri \<or> c = SLEEP d)
   \<and> (fst (poll W uri d xs) = Inl timeout_reached
        \<longrightarrow> (\<forall>x \<in> set xs. pending (task_results W x))
            \<and> polls uri (snd (poll W uri d xs)) = length xs)"
proof (induction xs)
  case Nil
  show ?case by (simp add: raise_def polls_def)
next
  case (Cons x xs)
  show ?case
  proof (cases "pending (task_results W x)")
    case True
    with Cons show ?thesis
      by (simp add: poll_pending_step after_def polls_def del: poll.simps)
  next
    case False
    then have ok: "ok_code (code (task_results W x))" by (simp add: pending_def)
    have ne: "task_failed \<noteq> timeout_reached" "KeyError ''_taskState'' \<noteq> timeout_reached"
      by (simp_all add: task_failed_def timeout_reached_def)
    from False ok ne show ?thesis
      by (auto simp: pending_def Let_def polls_def split: option.splits)
  qed
qed


lemma timeout_eq:
  "timeout want =
     (if 150 \<le> u_timeout want \<and> u_timeout want \<le> 1800
      then Inr (of_int (u_timeout want) / 100, 100)
      else Inl (F5ModuleError ''Timeout value must be between 150 and 1800 seconds.''))"
  by (auto simp: timeout_def Let_def)

lemma uri_distinct: "task_uri task \<noteq> result_uri task"
  by (simp add: task_uri_def result_uri_def)

lemma polls_Cons_task: "polls (result_uri task) (GET (task_uri task) # tr) = polls (result_uri task) tr"
  using uri_distinct [of task] by (auto simp: polls_def)

lemma async_wait_eq:
  "async_wait W want task =
     (if \<not> ok_code (code (task_resource W))
      then (Inl (F5ModuleError (''The task with the given task_id: '' @ task @ '' does not exist.'')),
            [GET (task_uri task)])
      else if 150 \<le> u_timeout want \<and> u_timeout want \<le> 1800
      then after [GET (task_uri task)]
             (poll W (result_uri task) (of_int (u_timeout want) / 100) [0..<100])
      else (Inl (F5ModuleError ''Timeout value must be between 150 and 1800 seconds.''),
            [GET (task_uri task)]))"
  by (simp add: async_wait_def check_task_exists_on_device_def timeout_eq bind_def step_def
      ret_def raise_def after_def split: prod.splits)

lemma other_errors:
  "F5ModuleError (''The task with the given task_id: '' @ task @ '' does not exist.'') \<noteq> timeout_reached"
  "F5ModuleError ''Timeout value must be between 150 and 1800 seconds.'' \<noteq> timeout_reached"
  by (simp_all add: timeout_reached_def)

lemma poll_first_terminal:
  assumes "k < n" and "\<forall>i<k. pending (task_results W i)"
  shows "completed (task_results W k)
           \<Longrightarrow> poll W uri d [0..<n] = (Inr True, rounds uri d k @ [GET uri])"
    and "failed (task_results W k)
           \<Longrightarrow> poll W uri d [0..<n] = (Inl task_failed, rounds uri d k @ [GET uri])"
proof -
  from assms(1) have split: "[0..<n] = [0..<k] @ k # [Suc k..<n]"
    by (metis le_add1 less_imp_add_positive upt_add_eq_append upt_conv_Cons zero_le add.commute
        less_eq_nat.simps(1) add_0)
  from assms(2) have pre: "\<forall>x \<in> set [0..<k]. pending (task_results W x)" by simp
  have p: "poll W uri d [0..<n] = after (rounds uri d k) (poll W uri d (k # [Suc k..<n]))"
    unfolding split using poll_prefix_pending [OF pre, of uri d "k # [Suc k..<n]"] by simp
  show "poll W uri d [0..<n] = (Inr True, rounds uri d k @ [GET uri])"
    if "completed (task_results W k)"
    unfolding p poll_completed_step [OF that] by (simp add: after_def)
  show "poll W uri d [0..<n] = (Inl task_failed, rounds uri d k @ [GET uri])"
    if "failed (task_results W k)"
    unfolding p poll_failed_step [OF that] by (simp add: after_def)
qed


text \<open>
  Claim C4. The timeout is accepted iff it lies between 150 and 1800, and then gives the
  delay \<open>timeout / 100\<close> and 100 rounds; otherwise \<^verbatim>\<open>async_wait\<close> raises after the look
  at the task resource and before any read of the result endpoint. A run reads the result
  endpoint at most 100 times and every sleep lasts \<open>timeout / 100\<close>. With the task known
  and the timeout accepted, if answer \<open>k < 100\<close> is the first that does not keep the
  loop going, the run ends right there, after \<open>k\<close> rounds and one more read: with success
  when it is \<^verbatim>\<open>COMPLETED\<close>, with the task-failed error when it is \<^verbatim>\<open>FAILED\<close>. The
  timeout error is raised exactly when all 100 answers keep the loop going, and then all
  100 reads have been made.
\<close>

theorem async_wait_polling:
  "(timeout want = Inr (of_int (u_timeout want) / 100, 100)
      \<longleftrightarrow> 150 \<le> u_timeout want \<and> u_timeout want \<le> 1800)
   \<and> ((\<exists>e. timeout want = Inl e) \<longleftrightarrow> u_timeout want < 150 \<or> 1800 < u_timeout want)
   \<and> (u_timeout want < 150 \<or> 1800 < u_timeout want
        \<longrightarrow> (\<exists>e. fst (async_wait W want task) = Inl e)
            \<and> snd (async_wait W want task) = [GET (task_uri task)]
            \<and> polls (result_uri task) (snd (async_wait W want task)) = 0)
   \<and> polls (result_uri task) (snd (async_wait W want task)) \<le> 100
   \<and> (\<forall>x. SLEEP x \<in> set (snd (async_wait W want task)) \<longrightarrow> x = of_int (u_timeout want) / 100)
   \<and> (ok_code (code (task_resource W)) \<and> 150 \<le> u_timeout want \<and> u_timeout want \<le> 1800
        \<and> k < 100 \<and> (\<forall>i<k. pending (task_results W i))
        \<longrightarrow> (completed (task_results W k)
               \<longrightarrow> async_wait W want task
                    = (Inr True,
                       GET (task_uri task)
                         # rounds (result_uri task) (of_int (u_timeout want) / 100) k
                         @ [GET (result_uri task)]))
            \<and> (failed (task_results W k)
               \<longrightarrow> async_wait W want task
                    = (Inl task_failed,
                       GET (task_uri task)
                         # rounds (result_uri task) (of_int (u_timeout want) / 100) k
                         @ [GET (result_uri task)])))
   \<and> (fst (async_wait W want task) = Inl timeout_reached
        \<longleftrightarrow> ok_code (code (task_resource W)) \<and> 150 \<le> u_timeout want \<and> u_timeout want \<le> 1800
            \<and> (\<forall>i<100. pending (task_results W i)))
   \<and> (fst (async_wait W want task) = Inl timeout_reached
        \<longrightarrow> polls (result_uri task) (snd (async_wait W want task)) = 100)"
proof -
  let ?d = "of_int (u_timeout want) / 100 :: rat"
  let ?ru = "result_uri task"
  let ?tu = "task_uri task"
  let ?p = "poll W ?ru ?d [0..<100]"
  note shape = poll_shape [of ?ru W ?d "[0..<100]"]
  have 1: "timeout want = Inr (?d, 100) \<longleftrightarrow> 150 \<le> u_timeout want \<and> u_timeout want \<le> 1800"
    by (simp add: timeout_eq)
  have 2: "(\<exists>e. timeout want = Inl e) \<longleftrightarrow> u_timeout want < 150 \<or> 1800 < u_timeout want"
    by (auto simp: timeout_eq)
  have 3: "(\<exists>e. fst (async_wait W want task) = Inl e)
            \<and> snd (async_wait W want task) = [GET ?tu]
            \<and> polls ?ru (snd (async_wait W want task)) = 0"
    if "u_timeout want < 150 \<or> 1800 < u_timeout want"
  proof -
    from that have nv: "\<not> (150 \<le> u_timeout want \<and> u_timeout want \<le> 1800)" by auto
    have "snd (async_wait W want task) = [GET ?tu]"
      and "\<exists>e. fst (async_wait W want task) = Inl e"
      unfolding async_wait_eq if_not_P [OF nv] by simp_all
    then show ?thesis using polls_Cons_task [of task "[]"] by (simp add: polls_def)
  qed
  have 4: "polls ?ru (snd (async_wait W want task)) \<le> 100"
  proof -
    from shape have "polls ?ru (snd ?p) \<le> 100" by simp
    moreover have "polls ?ru [GET ?tu] = 0"
      using polls_Cons_task [of task "[]"] by (simp add: polls_def)
    ultimately show ?thesis
      by (simp add: async_wait_eq after_def polls_Cons_task)
  qed
  have 5: "\<forall>x. SLEEP x \<in> set (snd (async_wait W want task)) \<longrightarrow> x = ?d"
  proof (intro allI impI)
    fix x assume x: "SLEEP x \<in> set (snd (async_wait W want task))"
    have "SLEEP x \<in> set (snd ?p)"
      using x by (auto simp: async_wait_eq after_def split: if_splits)
    with shape have "SLEEP x = GET ?ru \<or> SLEEP x = SLEEP ?d" by blast
    then show "x = ?d" by simp
  qed
  have 6: "(completed (task_results W k)
               \<longrightarrow> async_wait W want task
                    = (Inr True, GET ?tu # rounds ?ru ?d k @ [GET ?ru]))
            \<and> (failed (task_results W k)
               \<longrightarrow> async_wait W want task
                    = (Inl task_failed, GET ?tu # rounds ?ru ?d k @ [GET ?ru]))"
    if h: "ok_code (code (task_resource W)) \<and> 150 \<le> u_timeout want \<and> u_timeout want \<le> 1800
        \<and> k < 100 \<and> (\<forall>i<k. pending (task_results W i))"
  proof -
    from h have k: "k < 100" and pre: "\<forall>i<k. pending (task_results W i)" by simp_all
    from h have a: "async_wait W want task = after [GET ?tu] ?p" by (simp add: async_wait_eq)
    show ?thesis
      using poll_first_terminal [OF k pre, of ?ru ?d]
      by (auto simp: a after_def)
  qed
  have 7: "fst (async_wait W want task) = Inl timeout_reached
        \<longleftrightarrow> ok_code (code (task_resource W)) \<and> 150 \<le> u_timeout want \<and> u_timeout want \<le> 1800
            \<and> (\<forall>i<100. pending (task_results W i))"
  proof
    assume t: "fst (async_wait W want task) = Inl timeout_reached"
    with other_errors
    have ok: "ok_code (code (task_resource W))"
      and v: "150 \<le> u_timeout want \<and> u_timeout want \<le> 1800"
      by (auto simp: async_wait_eq split: if_splits)
    with t have "fst ?p = Inl timeout_reached" by (simp add: async_wait_eq after_def)
    with shape have "\<forall>x \<in> set [0..<100]. pending (task_results W x)" by blast
    then have "\<forall>i<100. pending (task_results W i)" by simp
    with ok v show "ok_code (code (task_resource W)) \<and> 150 \<le> u_timeout want
            \<and> u_timeout want \<le> 1800 \<and> (\<forall>i<100. pending (task_results W i))" by blast
  next
    assume h: "ok_code (code (task_resource W)) \<and> 150 \<le> u_timeout want \<and> u_timeout want \<le> 1800
            \<and> (\<forall>i<100. pending (task_results W i))"
    then have "\<forall>x \<in> set [0..<100]. pending (task_results W x)" by simp
    then have "?p = (Inl timeout_reached, rounds ?ru ?d (length [0..<100]))"
      by (rule poll_all_pending)
    with h show "fst (async_wait W want task) = Inl timeout_reached"
      by (simp add: async_wait_eq after_def)
  qed
  have 8: "polls ?ru (snd (async_wait W want task)) = 100"
    if t: "fst (async_wait W want task) = Inl timeout_reached"
  proof -
    from t 7 have ok: "ok_code (code (task_resource W))"
      and v: "150 \<le> u_timeout want \<and> u_timeout want \<le> 1800" by blast+
    with t have "fst ?p = Inl timeout_reached" by (simp add: async_wait_eq after_def)
    with shape have "polls ?ru (snd ?p) = 100" by simp
    with ok v show ?thesis by (simp add: async_wait_eq after_def polls_Cons_task)
  qed
  from 1 2 3 4 5 6 7 8 show ?thesis by blast
qed


theorem async_wait_polling_witness:
  "async_wait sample_world sample_request ''42''
     = (Inr True, GET (task_uri ''42'') # rounds (result_uri ''42'') (3 / 2) 2
                    @ [GET (result_uri ''42'')])
   \<and> fst (async_wait stuck_world sample_request ''42'') = Inl timeout_reached
   \<and> polls (result_uri ''42'') (snd (async_wait stuck_world sample_request ''42'')) = 100
   \<and> snd (async_wait sample_world (sample_request\<lparr>u_timeout := 100\<rparr>) ''42'')
       = [GET (task_uri ''42'')]"
proof -
  note T1 = async_wait_polling [where want = sample_request and W = sample_world
      and task = "''42''" and k = 2]
  note T2 = async_wait_polling [where want = sample_request and W = stuck_world
      and task = "''42''" and k = 0]
  note T3 = async_wait_polling [where want = "sample_request\<lparr>u_timeout := 100\<rparr>"
      and W = sample_world and task = "''42''" and k = 0]
  have d: "rat_of_int (u_timeout sample_request) / 100 = 3 / 2"
    by (simp add: sample_request_def)
  have h1: "ok_code (code (task_resource sample_world)) \<and> 150 \<le> u_timeout sample_request
            \<and> u_timeout sample_request \<le> 1800 \<and> (2::nat) < 100
            \<and> (\<forall>i<2. pending (task_results sample_world i))"
    by (simp add: sample_world_def sample_request_def ok_code_def pending_def)
  have c1: "completed (task_results sample_world 2)"
    by (simp add: sample_world_def completed_def ok_code_def)
  note A = T1 [THEN conjunct2, THEN conjunct2, THEN conjunct2, THEN conjunct2, THEN conjunct2,
      THEN conjunct1, THEN mp, OF h1, THEN conjunct1, THEN mp, OF c1, unfolded d]
  have h2: "ok_code (code (task_resource stuck_world)) \<and> 150 \<le> u_timeout sample_request
            \<and> u_timeout sample_request \<le> 1800
            \<and> (\<forall>i<100. pending (task_results stuck_world i))"
    by (simp add: stuck_world_def sample_world_def sample_request_def ok_code_def pending_def)
  note B = T2 [THEN conjunct2, THEN conjunct2, THEN conjunct2, THEN conjunct2, THEN conjunct2,
      THEN conjunct2, THEN conjunct1, THEN iffD2, OF h2]
  note C = T2 [THEN conjunct2, THEN conjunct2, THEN conjunct2, THEN conjunct2, THEN conjunct2,
      THEN conjunct2, THEN conjunct2, THEN mp, OF B]
  have h3: "u_timeout (sample_request\<lparr>u_timeout := 100\<rparr>) < 150
            \<or> 1800 < u_timeout (sample_request\<lparr>u_timeout := 100\<rparr>)"
    by simp
  note D = T3 [THEN conjunct2, THEN conjunct2, THEN conjunct1, THEN mp, OF h3,
      THEN conjunct2, THEN conjunct1]
  show ?thesis
    by (intro conjI) (rule A, rule B, rule C, rule D)
qed

subsection \<open>The reported change\<close>

lemma exec_module_ucs_changed:
  assumes "fst (exec_module_ucs W want) = Inr result"
  shows "r_changed result = True"
  using assms
  by (auto simp: exec_module_ucs_def bind_def ret_def split: prod.splits sum.splits)

lemma read_current_ucs_trace: "snd (read_current_ucs W) = [GET ''/mgmt/tm/sys/ucs'']"
  by (simp add: read_current_ucs_def bind_def step_def ret_def raise_def split: option.splits)

lemma exists_ucs_trace: "snd (exists_ucs W want) = [GET ''/mgmt/tm/sys/ucs'']"
proof -
  obtain r where r: "read_current_ucs W = (r, [GET ''/mgmt/tm/sys/ucs''])"
    using read_current_ucs_trace [of W] by (cases "read_current_ucs W") simp
  show ?thesis by (cases r) (simp_all add: exists_ucs_def bind_def ret_def r)
qed

text \<open>
  Claim C9: whenever \<^verbatim>\<open>exec_module\<close> returns a result, its \<^verbatim>\<open>changed\<close> entry is true.
  In particular, with no task id, the archive present on the device and
  \<^verbatim>\<open>only_create_file\<close> set, \<^verbatim>\<open>present\<close> only reads the UCS collection (no task is
  created, nothing is downloaded, no local file is touched), nothing is put into
  \<^verbatim>\<open>changes\<close>, and the result still says \<^verbatim>\<open>changed = True\<close>.
\<close>

theorem exec_module_ucs_reports_changed:
  "(fst (exec_module_ucs W want) = Inr result \<longrightarrow> r_changed result = True)
   \<and> ((u_task_id want = None \<or> u_task_id want = Some []) \<and> fst (exists_ucs W want) = Inr True
        \<and> u_only_create_file want
       \<longrightarrow> present_ucs W want = (Inr [], [GET ''/mgmt/tm/sys/ucs''])
           \<and> exec_module_ucs W want
               = (Inr \<lparr>r_reported = [], r_changed = True\<rparr>, [GET ''/mgmt/tm/sys/ucs'']))"
proof -
  have B: "present_ucs W want = (Inr [], [GET ''/mgmt/tm/sys/ucs''])
           \<and> exec_module_ucs W want
               = (Inr \<lparr>r_reported = [], r_changed = True\<rparr>, [GET ''/mgmt/tm/sys/ucs''])"
    if h: "(u_task_id want = None \<or> u_task_id want = Some []) \<and> fst (exists_ucs W want) = Inr True
        \<and> u_only_create_file want"
  proof -
    from h exists_ucs_trace [of W want]
    have e: "exists_ucs W want = (Inr True, [GET ''/mgmt/tm/sys/ucs''])"
      by (cases "exists_ucs W want") simp
    from h have "present_ucs W want
                 = bind (exists_ucs W want) (\<lambda>ex.
                     if ex then (if \<not> u_only_create_file want then update_ucs W want else ret [])
                     else create_ucs W want)"
      by (auto simp: present_ucs_def)
    with h have p: "present_ucs W want = (Inr [], [GET ''/mgmt/tm/sys/ucs''])"
      by (simp add: e bind_def ret_def)
    then show ?thesis
      by (simp add: exec_module_ucs_def bind_def ret_def to_return_def)
  qed
  with exec_module_ucs_changed show ?thesis by blast
qed

theorem exec_module_ucs_reports_changed_witness:
  "fst (exists_ucs sample_world (sample_request\<lparr>u_only_create_file := True\<rparr>)) = Inr True
   \<and> exec_module_ucs sample_world (sample_request\<lparr>u_only_create_file := True\<rparr>)
       = (Inr \<lparr>r_reported = [], r_changed = True\<rparr>, [GET ''/mgmt/tm/sys/ucs''])
   \<and> r_changed \<lparr>r_reported = [], r_changed = True\<rparr> = True"
proof -
  let ?w = "sample_request\<lparr>u_only_create_file := True\<rparr>"
  note T = exec_module_ucs_reports_changed [where W = sample_world and want = ?w
      and result = "\<lparr>r_reported = [], r_changed = True\<rparr>"]
  have e: "fst (exists_ucs sample_world ?w) = Inr True"
    by (simp add: exists_ucs_def read_current_ucs_def bind_def step_def ret_def raise_def
        sample_world_def sample_request_def ok_code_def basename_def)
  have h: "(u_task_id ?w = None \<or> u_task_id ?w = Some []) \<and> fst (exists_ucs sample_world ?w) = Inr True
           \<and> u_only_create_file ?w"
    using e by (simp add: sample_request_def)
  note X = T [THEN conjunct2, THEN mp, OF h, THEN conjunct2]
  have f: "fst (exec_module_ucs sample_world ?w) = Inr \<lparr>r_reported = [], r_changed = True\<rparr>"
    unfolding X by simp
  note Y = T [THEN conjunct1, THEN mp, OF f]
  show ?thesis by (intro conjI) (rule e, rule X, rule Y)
qed

section \<open>Properties of bigiq_device_discovery\<close>

subsection \<open>The access group name cannot change\<close>

lemma diff_access_group_name_iff:
  "compare_discovery want have ''access_group_name'' = Inl immutable_access_group
   \<longleftrightarrow> d_access_group_name want \<noteq> api_access_group_name have"
  by (simp add: compare_discovery_def diff_access_group_name_def)

lemma collect_discovery_raises:
  assumes "d_access_group_name want \<noteq> api_access_group_name have"
  shows "collect_discovery_changes want have discovery_updatables
         = (case modules want of Inl e \<Rightarrow> Inl e | Inr ms \<Rightarrow> Inl immutable_access_group)"
proof -
  have m: "compare_discovery want have ''modules'' = diff_modules want have"
    by (simp add: compare_discovery_def)
  have a: "compare_discovery want have ''access_group_name'' = Inl immutable_access_group"
    using assms by (simp add: diff_access_group_name_iff)
  have rest: "collect_discovery_changes want have
                [''access_group_name'', ''apm_properties'', ''module_list'']
              = Inl immutable_access_group"
    by (simp add: a)
  show ?thesis
  proof (cases "modules want")
    case (Inl e)
    then have "diff_modules want have = Inl e" by (simp add: diff_modules_def)
    with Inl show ?thesis by (simp add: discovery_updatables_def m)
  next
    case (Inr ms)
    then have "\<exists>c. diff_modules want have = Inr c"
      by (cases ms; cases "api_modules have") (simp_all add: diff_modules_def)
    then obtain c where "diff_modules want have = Inr c" by blast
    with Inr rest show ?thesis by (simp add: discovery_updatables_def m)
  qed
qed

lemma update_discovery_raises:
  assumes ok: "ok_code (code (machine W))"
    and differ: "d_access_group_name want \<noteq> api_access_group_name (properties (machine W))"
  shows "update_discovery W want device_id
         = (case modules want of Inl e \<Rightarrow> Inl e | Inr ms \<Rightarrow> Inl immutable_access_group,
            [GET (''/mgmt/cm/system/machineid-resolver/'' @ device_id)])"
proof -
  have r: "read_current_from_machine W device_id
           = (Inr (properties (machine W)),
              [GET (''/mgmt/cm/system/machineid-resolver/'' @ device_id)])"
    using ok by (simp add: read_current_from_machine_def bind_def step_def ret_def)
  have u: "update_changed_options_discovery (flatten_boolean W) want (properties (machine W))
           = (case modules want of Inl e \<Rightarrow> Inl e | Inr ms \<Rightarrow> Inl immutable_access_group)"
    by (simp add: update_changed_options_discovery_def collect_discovery_raises [OF differ]
        split: sum.splits)
  show ?thesis
    by (simp add: update_discovery_def r u bind_def lift_def split: sum.splits)
qed

text \<open>
  Claim C5: the comparison of \<^verbatim>\<open>access_group_name\<close> raises the immutable-field error
  exactly when the desired name differs from the observed one. When \<^verbatim>\<open>update\<close> has read
  the machine and the names differ, the run ends in an error, the read of the machine is
  the only call it has issued (no discovery, no import, no statistics task, with or
  without \<^verbatim>\<open>force\<close>), and the error is the immutable-field one whenever the desired
  module list passes its own validation, which \<^verbatim>\<open>compare\<close> meets first.
\<close>

theorem immutable_access_group_name:
  "(compare_discovery want observed ''access_group_name'' = Inl immutable_access_group
      \<longleftrightarrow> d_access_group_name want \<noteq> api_access_group_name observed)
   \<and> (ok_code (code (machine W))
        \<and> d_access_group_name want \<noteq> api_access_group_name (properties (machine W))
       \<longrightarrow> (\<exists>e. fst (update_discovery W want device_id) = Inl e)
           \<and> snd (update_discovery W want device_id)
               = [GET (''/mgmt/cm/system/machineid-resolver/'' @ device_id)]
           \<and> filter mutating (snd (update_discovery W want device_id)) = []
           \<and> ((\<exists>ms. modules want = Inr ms)
                \<longrightarrow> fst (update_discovery W want device_id) = Inl immutable_access_group))"
proof -
  have B: "(\<exists>e. fst (update_discovery W want device_id) = Inl e)
           \<and> snd (update_discovery W want device_id)
               = [GET (''/mgmt/cm/system/machineid-resolver/'' @ device_id)]
           \<and> filter mutating (snd (update_discovery W want device_id)) = []
           \<and> ((\<exists>ms. modules want = Inr ms)
                \<longrightarrow> fst (update_discovery W want device_id) = Inl immutable_access_group)"
    if h: "ok_code (code (machine W))
        \<and> d_access_group_name want \<noteq> api_access_group_name (properties (machine W))"
  proof -
    from h have ok: "ok_code (code (machine W))"
      and differ: "d_access_group_name want \<noteq> api_access_group_name (properties (machine W))"
      by simp_all
    note u = update_discovery_raises [OF ok differ, of device_id]
    show ?thesis
      by (cases "modules want") (auto simp: u mutating_def)
  qed
  with diff_access_group_name_iff show ?thesis by blast
qed

lemma sample_api_group:
  "api_access_group_name (properties (machine sample_bigiq)) = Some ''group1''"
  by (simp add: api_access_group_name_def sample_bigiq_def)

lemma sample_modules: "modules sample_discovery = Inr (Some [''adc_core'', ''access''])"
  by (simp add: modules_def sample_discovery_def falsy_def access_conflict_policy_def
      module_map_def py_upper_def)

theorem immutable_access_group_name_witness:
  "update_discovery sample_bigiq sample_discovery ''7''
     = (Inl immutable_access_group, [GET ''/mgmt/cm/system/machineid-resolver/7''])
   \<and> filter mutating (snd (update_discovery sample_bigiq sample_discovery ''7'')) = []"
proof -
  note T = immutable_access_group_name [where W = sample_bigiq and want = sample_discovery
      and device_id = "''7''" and observed = "properties (machine sample_bigiq)"]
  have h: "ok_code (code (machine sample_bigiq))
           \<and> d_access_group_name sample_discovery
                \<noteq> api_access_group_name (properties (machine sample_bigiq))"
    unfolding sample_api_group by (simp add: sample_bigiq_def sample_discovery_def ok_code_def)
  note X = T [THEN conjunct2, THEN mp, OF h]
  have m: "\<exists>ms. modules sample_discovery = Inr ms" unfolding sample_modules by simp
  note F = X [THEN conjunct2, THEN conjunct2, THEN conjunct2, THEN mp, OF m]
  note S = X [THEN conjunct2, THEN conjunct1]
  note M = X [THEN conjunct2, THEN conjunct2, THEN conjunct1]
  have "update_discovery sample_bigiq sample_discovery ''7''
        = (fst (update_discovery sample_bigiq sample_discovery ''7''),
           snd (update_discovery sample_bigiq sample_discovery ''7''))" by simp
  then have U: "update_discovery sample_bigiq sample_discovery ''7''
     = (Inl immutable_access_group, [GET ''/mgmt/cm/system/machineid-resolver/7''])"
    unfolding F S by simp
  show ?thesis by (intro conjI) (rule U, rule M)
qed


subsection \<open>Where the access conflict policy comes from\<close>

text \<open>
  Claim C10: whenever the \<^verbatim>\<open>access_conflict_policy\<close> input is set, the property of
  that name is the \<^verbatim>\<open>device_conflict_policy\<close> input in upper case (the value of the
  \<^verbatim>\<open>device_conflict_policy\<close> property), and with \<^verbatim>\<open>apm\<close> among the modules the entry
  \<^verbatim>\<open>cm:access:conflict-resolution\<close> of \<^verbatim>\<open>apm_properties\<close> carries it. The property is
  \<^verbatim>\<open>None\<close> exactly when the input is.
\<close>

theorem access_conflict_policy_from_device_policy:
  "(d_access_conflict_policy w \<noteq> None
      \<longrightarrow> access_conflict_policy w = Some (py_upper (d_device_conflict_policy w))
          \<and> access_conflict_policy w = Some (device_conflict_policy w))
   \<and> (d_access_conflict_policy w \<noteq> None \<and> d_modules w = Some ms \<and> ''apm'' \<in> set ms
      \<longrightarrow> (\<exists>props. apm_properties fb w = Some props
              \<and> map_of props ''cm:access:conflict-resolution''
                   = Some (Some (VStr (py_upper (d_device_conflict_policy w))))))
   \<and> (access_conflict_policy w = None \<longleftrightarrow> d_access_conflict_policy w = None)"
proof -
  have 1: "access_conflict_policy w = Some (py_upper (d_device_conflict_policy w))
          \<and> access_conflict_policy w = Some (device_conflict_policy w)"
    if "d_access_conflict_policy w \<noteq> None"
    using that by (auto simp: access_conflict_policy_def device_conflict_policy_def)
  have 2: "\<exists>props. apm_properties fb w = Some props
              \<and> map_of props ''cm:access:conflict-resolution''
                   = Some (Some (VStr (py_upper (d_device_conflict_policy w))))"
    if h: "d_access_conflict_policy w \<noteq> None \<and> d_modules w = Some ms \<and> ''apm'' \<in> set ms"
  proof -
    from h 1 have a: "access_conflict_policy w = Some (py_upper (d_device_conflict_policy w))"
      by blast
    from h show ?thesis by (simp add: apm_properties_def a)
  qed
  have 3: "access_conflict_policy w = None \<longleftrightarrow> d_access_conflict_policy w = None"
    by (simp add: access_conflict_policy_def split: option.splits)
  from 1 2 3 show ?thesis by blast
qed

lemma upper_example: "py_upper ''use_bigip'' = ''USE_BIGIP''"
  by code_simp

theorem access_conflict_policy_from_device_policy_witness:
  "d_access_conflict_policy sample_discovery = Some ''keep_version''
   \<and> d_device_conflict_policy sample_discovery = ''use_bigip''
   \<and> access_conflict_policy sample_discovery = Some ''USE_BIGIP''
   \<and> apm_properties sample_flatten sample_discovery
       = Some [(''cm:access:conflict-resolution'', Some (VStr ''USE_BIGIP'')),
               (''cm:access:access-group-name'', Some (VStr ''group2'')),
               (''cm:access:import-shared'', Some (VBool True))]
   \<and> map_of [(''cm:access:conflict-resolution'', Some (VStr ''USE_BIGIP'')),
               (''cm:access:access-group-name'', Some (VStr ''group2'')),
               (''cm:access:import-shared'', Some (VBool True))]
         ''cm:access:conflict-resolution'' = Some (Some (VStr ''USE_BIGIP''))"
proof -
  note T = access_conflict_policy_from_device_policy [where w = sample_discovery
      and ms = "[''ltm'', ''apm'']" and fb = sample_flatten]
  have p: "d_access_conflict_policy sample_discovery = Some ''keep_version''"
    by (simp add: sample_discovery_def)
  have d: "d_device_conflict_policy sample_discovery = ''use_bigip''"
    by (simp add: sample_discovery_def)
  have h1: "d_access_conflict_policy sample_discovery \<noteq> None" unfolding p by simp
  have m: "d_modules sample_discovery = Some [''ltm'', ''apm'']"
    by (simp add: sample_discovery_def)
  have h2: "d_access_conflict_policy sample_discovery \<noteq> None
            \<and> d_modules sample_discovery = Some [''ltm'', ''apm'']
            \<and> ''apm'' \<in> set [''ltm'', ''apm'']"
    using h1 m by simp
  note A = T [THEN conjunct1, THEN mp, OF h1, THEN conjunct1, unfolded d upper_example]
  have g: "d_access_group_name sample_discovery = Some ''group2''"
    and f: "d_access_group_first_device sample_discovery = Some True"
    by (simp_all add: sample_discovery_def)
  have B: "apm_properties sample_flatten sample_discovery
       = Some [(''cm:access:conflict-resolution'', Some (VStr ''USE_BIGIP'')),
               (''cm:access:access-group-name'', Some (VStr ''group2'')),
               (''cm:access:import-shared'', Some (VBool True))]"
    by (simp add: apm_properties_def A m g f access_group_first_device_def sample_flatten_def
        falsy_def)
  from T [THEN conjunct2, THEN conjunct1, THEN mp, OF h2, unfolded B d upper_example]
  have C: "map_of [(''cm:access:conflict-resolution'', Some (VStr ''USE_BIGIP'')),
               (''cm:access:access-group-name'', Some (VStr ''group2'')),
               (''cm:access:import-shared'', Some (VBool True))]
         ''cm:access:conflict-resolution'' = Some (Some (VStr ''USE_BIGIP''))"
    by simp
  show ?thesis by (intro conjI) (rule p, rule d, rule A, rule B, rule C)
qed

end
